theory Spec2Isabelle
  imports Complex_Main
begin

section \<open>Python values of the criteria bundle\<close>

text \<open>
  \<open>Patent.filter\<close> receives the cleaned data of the search form as an untyped Python
  \<open>dict\<close>. Its behaviour depends on truthiness (\<open>if value\<close>), identity with \<open>None\<close>,
  subscripting and iteration, so the values are modelled dynamically. Numbers are Python
  \<open>int\<close> and \<open>float\<close> (a float by its real value; NaN and infinities are left out),
  a \<open>datetime.date\<close> is its ordinal. \<open>PPoint\<close> and \<open>PDistance\<close> are the GeoDjango objects
  \<open>Point(lng, lat)\<close> and \<open>D(m=radius)\<close> that the function builds itself.
\<close>

datatype pyval =
    PNone
  | PBool bool
  | PInt int
  | PFloat real
  | PStr string
  | PDate int
  | PList "pyval list"
  | PTuple "pyval list"
  | PDict "(string \<times> pyval) list"
  | PPoint real real
  | PDistance real

text \<open>The criteria bundle itself: a \<open>dict\<close> with string keys.\<close>

type_synonym data = "string \<rightharpoonup> pyval"

text \<open>
  The exceptions the function can end in. \<open>FieldError\<close> is
  \<open>django.core.exceptions.FieldError\<close>. \<open>NotModelled\<close> is no Python exception: it marks
  an input on which Django coerces or rejects a value in a way this development does not
  describe (a string where a number is expected, a lookup path the function never
  builds); no statement below is about such an input.
\<close>

datatype error = KeyError | TypeError | AttributeError | FieldError | NotModelled

definition bind :: "error + 'a \<Rightarrow> ('a \<Rightarrow> error + 'b) \<Rightarrow> error + 'b" where
  "bind m f = (case m of Inl e \<Rightarrow> Inl e | Inr x \<Rightarrow> f x)"

text \<open>\<open>bool(v)\<close>: what \<open>if v:\<close> tests.\<close>

fun truthy :: "pyval \<Rightarrow> bool" where
  "truthy PNone = False"
| "truthy (PBool b) = b"
| "truthy (PInt n) = (n \<noteq> 0)"
| "truthy (PFloat x) = (x \<noteq> 0)"
| "truthy (PStr s) = (s \<noteq> [])"
| "truthy (PDate d) = True"
| "truthy (PList xs) = (xs \<noteq> [])"
| "truthy (PTuple xs) = (xs \<noteq> [])"
| "truthy (PDict kvs) = (kvs \<noteq> [])"
| "truthy (PPoint x y) = True"
| "truthy (PDistance r) = True"

text \<open>\<open>data[key]\<close> on the bundle: a missing key raises \<open>KeyError\<close>.\<close>

definition data_get :: "data \<Rightarrow> string \<Rightarrow> error + pyval" where
  "data_get d k = (case d k of None \<Rightarrow> Inl KeyError | Some v \<Rightarrow> Inr v)"

text \<open>
  \<open>value[key]\<close> with a string key on an arbitrary value: only a \<open>dict\<close> can be
  subscripted by a string; sequences want integer indices and the other values are not
  subscriptable, both a \<open>TypeError\<close>.
\<close>

fun getitem :: "pyval \<Rightarrow> string \<Rightarrow> error + pyval" where
  "getitem (PDict kvs) k = (case map_of kvs k of None \<Rightarrow> Inl KeyError | Some v \<Rightarrow> Inr v)"
| "getitem v k = Inl TypeError"

text \<open>\<open>iter(v)\<close>: the items a \<open>for\<close> loop, a comprehension or \<open>str.join\<close> runs over.\<close>

fun iterate :: "pyval \<Rightarrow> error + pyval list" where
  "iterate (PList xs) = Inr xs"
| "iterate (PTuple xs) = Inr xs"
| "iterate (PStr s) = Inr (map (\<lambda>c. PStr [c]) s)"
| "iterate (PDict kvs) = Inr (map (\<lambda>kv. PStr (fst kv)) kvs)"
| "iterate v = Inl TypeError"

fun as_strs :: "pyval list \<Rightarrow> error + string list" where
  "as_strs [] = Inr []"
| "as_strs (PStr s # vs) = bind (as_strs vs) (\<lambda>ss. Inr (s # ss))"
| "as_strs (v # vs) = Inl TypeError"

fun intercalate :: "string \<Rightarrow> string list \<Rightarrow> string" where
  "intercalate sep [] = []"
| "intercalate sep [s] = s"
| "intercalate sep (s # t # ss) = s @ sep @ intercalate sep (t # ss)"

text \<open>
  \<open>sep.join(iterable)\<close> for a string \<open>sep\<close>: every item must be a string
  (\<open>TypeError\<close> otherwise).
\<close>

definition str_join :: "string \<Rightarrow> pyval \<Rightarrow> error + string" where
  "str_join sep v = bind (iterate v) (\<lambda>items. bind (as_strs items) (\<lambda>ss. Inr (intercalate sep ss)))"

text \<open>
  \<open>keyword.startswith(key)\<close>: the attribute exists on strings only
  (\<open>AttributeError\<close> otherwise, raised before the argument is looked at); the argument
  is a string or a tuple (\<open>TypeError\<close> otherwise). The items of a tuple are tried in
  turn: the first item that is a prefix decides with \<open>True\<close>, and an item that is not a
  string raises \<open>TypeError\<close> when its turn comes.
\<close>

fun startswith_any :: "string \<Rightarrow> pyval list \<Rightarrow> error + bool" where
  "startswith_any s [] = Inr False"
| "startswith_any s (k # ks) =
     (case k of
        PStr p \<Rightarrow> if take (length p) s = p then Inr True else startswith_any s ks
      | _ \<Rightarrow> Inl TypeError)"

definition startswith :: "pyval \<Rightarrow> pyval \<Rightarrow> error + bool" where
  "startswith v key =
     (case v of
        PStr s \<Rightarrow>
          (case key of
             PStr k \<Rightarrow> Inr (take (length k) s = k)
           | PTuple ks \<Rightarrow> startswith_any s ks
           | _ \<Rightarrow> Inl TypeError)
      | _ \<Rightarrow> Inl AttributeError)"

text \<open>
  The numbers \<open>Point(x, y)\<close> and \<open>D(m=r)\<close> accept. \<open>D\<close> passes its argument through
  \<open>float()\<close>, which also parses strings; that parse is not modelled.
\<close>

fun to_float :: "pyval \<Rightarrow> error + real" where
  "to_float (PInt n) = Inr (real_of_int n)"
| "to_float (PFloat x) = Inr x"
| "to_float (PBool b) = Inr (if b then 1 else 0)"
| "to_float (PStr s) = Inl NotModelled"
| "to_float v = Inl TypeError"

text \<open>
  \<open>Point(x, y)\<close> takes two numbers. GEOS also accepts \<open>None\<close> (the empty point) and
  a single list or tuple of coordinates as \<open>x\<close>; these are not modelled. Everything
  else is a \<open>TypeError\<close>.
\<close>

definition numeric :: "pyval \<Rightarrow> bool" where
  "numeric v = (case v of PInt n \<Rightarrow> True | PFloat x \<Rightarrow> True | PBool b \<Rightarrow> True | _ \<Rightarrow> False)"

definition Point :: "pyval \<Rightarrow> pyval \<Rightarrow> error + pyval" where
  "Point x y =
     (case x of
        PNone \<Rightarrow> Inl NotModelled
      | PList cs \<Rightarrow> Inl NotModelled
      | PTuple cs \<Rightarrow> Inl NotModelled
      | _ \<Rightarrow>
          if numeric x \<and> numeric y
          then bind (to_float x) (\<lambda>a. bind (to_float y) (\<lambda>b. Inr (PPoint a b)))
          else Inl TypeError)"

definition D :: "pyval \<Rightarrow> error + pyval" where
  "D m = bind (to_float m) (\<lambda>r. Inr (PDistance r))"

section \<open>Q objects\<close>

text \<open>
  A \<open>django.db.models.Q\<close> is a tree: a node has a connector and children, a child is a
  condition \<open>(lookup, value)\<close> or another node. \<open>Patent.filter\<close> never negates, so nodes
  carry no negation flag. \<open>Q()\<close> is the node without children.
\<close>

datatype connector = AND | OR

datatype qnode = Cond string pyval | Q connector "qnode list"

definition Q_empty :: qnode where
  "Q_empty = Q AND []"

definition Q_kw :: "string \<Rightarrow> pyval \<Rightarrow> qnode" where
  "Q_kw field v = Q AND [Cond field v]"

fun is_empty_q :: "qnode \<Rightarrow> bool" where
  "is_empty_q (Q c []) = True"
| "is_empty_q q = False"

text \<open>
  \<open>Node.add(data, conn)\<close> on a fresh node of connector \<open>conn\<close>: a child node with the
  same connector, or with a single child, is squashed into the parent.
\<close>

fun squash :: "connector \<Rightarrow> qnode \<Rightarrow> qnode list" where
  "squash conn (Cond k v) = [Cond k v]"
| "squash conn (Q c xs) = (if c = conn \<or> length xs = 1 then xs else [Q c xs])"

text \<open>\<open>Q._combine\<close>: an empty operand gives the other one back.\<close>

definition combine :: "connector \<Rightarrow> qnode \<Rightarrow> qnode \<Rightarrow> qnode" where
  "combine conn a b =
     (if is_empty_q a then b
      else if is_empty_q b then a
      else Q conn (squash conn a @ squash conn b))"

definition and_q :: "qnode \<Rightarrow> qnode \<Rightarrow> qnode" where
  "and_q a b = combine AND a b"

definition or_q :: "qnode \<Rightarrow> qnode \<Rightarrow> qnode" where
  "or_q a b = combine OR a b"

text \<open>The conditions of a tree, left to right.\<close>

fun leaves :: "qnode \<Rightarrow> (string \<times> pyval) list" where
  "leaves (Cond k v) = [(k, v)]"
| "leaves (Q c xs) = concat (map leaves xs)"

section \<open>Patent.filter: building the predicate\<close>

text \<open>The two local helpers of \<open>Patent.filter\<close>.\<close>

definition exact_query :: "string \<Rightarrow> pyval \<Rightarrow> qnode" where
  "exact_query field v = (if truthy v then Q_kw field v else Q_empty)"

definition range_query :: "string \<Rightarrow> pyval \<Rightarrow> error + qnode" where
  "range_query field v =
     (if truthy v then
        bind (getitem v ''min'') (\<lambda>mn.
          let q1 = (if truthy mn then and_q Q_empty (Q_kw (field @ ''__gte'') mn) else Q_empty)
          in bind (getitem v ''max'') (\<lambda>mx.
            Inr (if truthy mx then and_q q1 (Q_kw (field @ ''__lte'') mx) else q1)))
      else Inr Q_empty)"

text \<open>
  Line 232: \<open>data["patent_keywords_logic"].join(data["patent_keywords"])\<close>. The
  attribute \<open>join\<close> is looked up on the logic token before the keyword list is read.
\<close>

definition keywords_of :: "data \<Rightarrow> error + string" where
  "keywords_of d =
     bind (data_get d ''patent_keywords_logic'') (\<lambda>logic.
       case logic of
         PStr sep \<Rightarrow> bind (data_get d ''patent_keywords'') (\<lambda>kws. str_join sep kws)
       | _ \<Rightarrow> Inl AttributeError)"

text \<open>\<open>q &= exact_query(field, data[key])\<close> and \<open>q &= range_query(field, data[key])\<close>.\<close>

definition and_exact :: "data \<Rightarrow> string \<Rightarrow> string \<Rightarrow> qnode \<Rightarrow> error + qnode" where
  "and_exact d field key q = bind (data_get d key) (\<lambda>v. Inr (and_q q (exact_query field v)))"

definition and_range :: "data \<Rightarrow> string \<Rightarrow> string \<Rightarrow> qnode \<Rightarrow> error + qnode" where
  "and_range d field key q =
     bind (data_get d key) (\<lambda>v. bind (range_query field v) (\<lambda>r. Inr (and_q q r)))"

text \<open>\<open>if data[key] is not None: q &= Q(field=data[key])\<close>: the tri-state flags.\<close>

definition and_not_none :: "data \<Rightarrow> string \<Rightarrow> string \<Rightarrow> qnode \<Rightarrow> error + qnode" where
  "and_not_none d field key q =
     bind (data_get d key) (\<lambda>v. Inr (if v \<noteq> PNone then and_q q (Q_kw field v) else q))"

text \<open>Lines 234 to 250: the fragment on the patent's own columns.\<close>

definition patent_query :: "data \<Rightarrow> error + qnode" where
  "patent_query d =
     bind (keywords_of d) (\<lambda>keywords.
     bind (data_get d ''patent_office'') (\<lambda>office.
     bind (and_exact d ''type'' ''patent_type'' (exact_query ''office'' office)) (\<lambda>q1.
     bind (and_range d ''application_filed_date'' ''patent_application_filed_date'' q1) (\<lambda>q2.
     bind (and_range d ''granted_date'' ''patent_granted_date'' q2) (\<lambda>q3.
     bind (and_range d ''figures_count'' ''patent_figures_count'' q3) (\<lambda>q4.
     bind (and_range d ''claims_count'' ''patent_claims_count'' q4) (\<lambda>q5.
     bind (and_range d ''sheets_count'' ''patent_sheets_count'' q5) (\<lambda>q6.
     bind (and_not_none d ''withdrawn'' ''patent_withdrawn'' q6) (\<lambda>q7.
     bind (data_get d ''patent_keywords'') (\<lambda>kws.
       Inr (if truthy kws
            then and_q q7 (or_q (Q_kw ''title__iregex'' (PStr (''('' @ keywords @ '')'')))
                                (Q_kw ''abstract__iregex'' (PStr (''('' @ keywords @ '')''))))
            else q7)))))))))))"

text \<open>
  Lines 255 to 263: the pruning of the classification selections. The loops assign to
  \<open>data[hierarchy_below]\<close>, so they change the caller's bundle; the state is threaded
  through and returned together with the exception that ended the loop, if any.
\<close>

definition hierarchies :: "string list" where
  "hierarchies = [''cpc_section'', ''cpc_class'', ''cpc_subclass'', ''cpc_group'']"

text \<open>The comprehension \<open>[keyword for keyword in items if not keyword.startswith(key)]\<close>.\<close>

fun not_startswith :: "pyval list \<Rightarrow> pyval \<Rightarrow> error + pyval list" where
  "not_startswith [] key = Inr []"
| "not_startswith (kw # kws) key =
     bind (startswith kw key) (\<lambda>b.
       bind (not_startswith kws key) (\<lambda>rest. Inr (if b then rest else kw # rest)))"

definition prune :: "string \<Rightarrow> pyval \<Rightarrow> data \<Rightarrow> error + data" where
  "prune below key d =
     bind (data_get d below) (\<lambda>v.
       bind (iterate v) (\<lambda>items.
         bind (not_startswith items key) (\<lambda>kept. Inr (d(below \<mapsto> PList kept)))))"

fun for_keys :: "string \<Rightarrow> pyval list \<Rightarrow> data \<Rightarrow> data \<times> error option" where
  "for_keys below [] d = (d, None)"
| "for_keys below (key # keys) d =
     (case prune below key d of
        Inl e \<Rightarrow> (d, Some e)
      | Inr d' \<Rightarrow> for_keys below keys d')"

fun for_below :: "string \<Rightarrow> string list \<Rightarrow> data \<Rightarrow> data \<times> error option" where
  "for_below level [] d = (d, None)"
| "for_below level (below # rest) d =
     (case bind (data_get d level) iterate of
        Inl e \<Rightarrow> (d, Some e)
      | Inr keys \<Rightarrow>
          (case for_keys below keys d of
             (d', Some e) \<Rightarrow> (d', Some e)
           | (d', None) \<Rightarrow> for_below level rest d'))"

fun for_levels :: "string list \<Rightarrow> data \<Rightarrow> data \<times> error option" where
  "for_levels [] d = (d, None)"
| "for_levels (level # finer) d =
     (case for_below level finer d of
        (d', Some e) \<Rightarrow> (d', Some e)
      | (d', None) \<Rightarrow> for_levels finer d')"

definition dedupe :: "data \<Rightarrow> data \<times> error option" where
  "dedupe d = for_levels hierarchies d"

text \<open>
  \<open>if xs := data[key]: q &= Q(field=f"^({sep.join(xs)})")\<close>: the prefix regexes of the
  classification levels (\<open>sep\<close> is \<open>|\<close>) and of the first names (\<open>sep\<close> is empty).
\<close>

definition and_regex_join :: "data \<Rightarrow> string \<Rightarrow> string \<Rightarrow> string \<Rightarrow> qnode \<Rightarrow> error + qnode" where
  "and_regex_join d sep field key q =
     bind (data_get d key) (\<lambda>v.
       if truthy v
       then bind (str_join sep v) (\<lambda>s. Inr (and_q q (Q_kw field (PStr (''^('' @ s @ '')'')))))
       else Inr q)"

text \<open>\<open>if data[key]: q &= Q(field=data[key])\<close>.\<close>

definition and_if_truthy :: "data \<Rightarrow> string \<Rightarrow> string \<Rightarrow> qnode \<Rightarrow> error + qnode" where
  "and_if_truthy d field key q =
     bind (data_get d key) (\<lambda>v. Inr (if truthy v then and_q q (Q_kw field v) else q))"

text \<open>
  \<open>if location := data[key]: q &= Q(field=(Point(location["lng"], location["lat"]),
  D(m=location["radius"])))\<close>.
\<close>

definition and_location :: "data \<Rightarrow> string \<Rightarrow> string \<Rightarrow> qnode \<Rightarrow> error + qnode" where
  "and_location d field key q =
     bind (data_get d key) (\<lambda>location.
       if truthy location
       then
         bind (getitem location ''lng'') (\<lambda>lng.
         bind (getitem location ''lat'') (\<lambda>lat.
         bind (Point lng lat) (\<lambda>pt.
         bind (getitem location ''radius'') (\<lambda>radius.
         bind (D radius) (\<lambda>dist.
           Inr (and_q q (Q_kw field (PTuple [pt, dist]))))))))
       else Inr q)"

text \<open>Lines 266 to 279, on the pruned bundle.\<close>

definition cpc_query :: "data \<Rightarrow> error + qnode" where
  "cpc_query d =
     bind (and_regex_join d ''|'' ''cpc_groups__cpc_group__group__iregex'' ''cpc_section'' Q_empty) (\<lambda>q1.
     bind (and_regex_join d ''|'' ''cpc_groups__cpc_group__group__iregex'' ''cpc_class'' q1) (\<lambda>q2.
     bind (and_regex_join d ''|'' ''cpc_groups__cpc_group__group__iregex'' ''cpc_subclass'' q2) (\<lambda>q3.
     and_if_truthy d ''cpc_groups__cpc_group__in'' ''cpc_group'' q3)))"

text \<open>Lines 281 to 285.\<close>

definition pct_query :: "data \<Rightarrow> error + qnode" where
  "pct_query d =
     bind (data_get d ''pct_application_date'') (\<lambda>v.
     bind (range_query ''pct_data__published_or_filed_date'' v) (\<lambda>q1.
     and_not_none d ''pct_data__granted'' ''pct_granted'' q1))"

text \<open>Lines 287 to 302.\<close>

definition inventor_query :: "data \<Rightarrow> error + qnode" where
  "inventor_query d =
     bind (and_regex_join d [] ''inventors__first_name__iregex'' ''inventor_first_name'' Q_empty) (\<lambda>q1.
     bind (and_if_truthy d ''inventors__last_name__in'' ''inventor_last_name'' q1) (\<lambda>q2.
     bind (and_not_none d ''inventors__male'' ''inventor_male'' q2) (\<lambda>q3.
     and_location d ''inventors__location__point__distance_lte'' ''inventor_location'' q3)))"

text \<open>Lines 304 to 321.\<close>

definition assignee_query :: "data \<Rightarrow> error + qnode" where
  "assignee_query d =
     bind (and_regex_join d [] ''assignees__first_name__iregex'' ''assignee_first_name'' Q_empty) (\<lambda>q1.
     bind (and_if_truthy d ''assignees__last_name__in'' ''assignee_last_name'' q1) (\<lambda>q2.
     bind (and_if_truthy d ''assignees__organization__in'' ''assignee_organization'' q2) (\<lambda>q3.
     and_location d ''assignees__location__point__distance_lte'' ''assignee_location'' q3)))"

text \<open>
  Line 323: \<open>query = patent_query & cpc_query & pct_query & inventor_query &
  assignee_query\<close>, for the four fragments built after the pruning.
\<close>

definition related_query :: "data \<Rightarrow> qnode \<Rightarrow> error + qnode" where
  "related_query d pq =
     bind (cpc_query d) (\<lambda>cq.
     bind (pct_query d) (\<lambda>tq.
     bind (inventor_query d) (\<lambda>iq.
     bind (assignee_query d) (\<lambda>aq.
       Inr (and_q (and_q (and_q (and_q pq cq) tq) iq) aq)))))"

section \<open>The tables\<close>

text \<open>
  The model classes as records, one row each. \<open>null=True\<close> columns are options, a
  \<open>DateField\<close> is the date's ordinal, a foreign key holds the key of the row it points
  to. Field names that several models share carry the model's name. The classification
  tables above the group level and the citation table are never joined by the functions
  studied here; a \<open>PatentCPCGroup\<close> row holds the group's code, the primary key of
  \<open>CPCGroup\<close>.
\<close>

record patent =
  patent_id :: int
  office :: string
  office_patent_id :: string
  patent_type :: "string option"
  application_filed_date :: "int option"
  granted_date :: int
  title :: string
  abstract_processed :: "string option"
  claims_count :: int
  figures_count :: "int option"
  sheets_count :: "int option"
  withdrawn :: bool
  granted_year :: "int option"
  application_year :: "int option"
  years_to_get_granted :: "real option"
  title_processed :: "string option"
  title_word_count_without_processing :: "int option"
  title_word_count_with_processing :: "int option"
  abstract_word_count_without_processing :: "int option"
  abstract_word_count_with_processing :: "int option"
  cpc_groups_count :: "int option"
  assignee_count :: "int option"
  inventor_count :: "int option"
  incoming_citations_count :: "int option"
  outgoing_citations_count :: "int option"
  representation :: "string option"

record patent_cpc_group =
  link_id :: int
  link_patent :: int
  link_cpc_group :: string

record pct_data =
  pct_data_id :: int
  pct_patent :: int
  pct_id :: string
  published_or_filed_date :: int
  filed_country :: string
  granted :: bool
  pct_representation :: "string option"

record location =
  location_id :: int
  country_code :: "string option"
  state :: "string option"
  city :: "string option"
  point :: "(real \<times> real) option"
  county_fips :: "int option"
  state_fips :: "int option"

record inventor =
  inventor_id :: int
  inventor_patent :: int
  inventor_location :: "int option"
  inventor_first_name :: "string option"
  inventor_last_name :: "string option"
  male :: "bool option"

record assignee =
  assignee_id :: int
  assignee_patent :: int
  assignee_location :: "int option"
  assignee_first_name :: "string option"
  assignee_last_name :: "string option"
  organization :: "string option"
  is_organization :: "bool option"

text \<open>
  A snapshot of the datastore: the tables, in some storage order, and the planner's
  statistics \<open>pg_class\<close> as rows \<open>(relname, reltuples)\<close>.
\<close>

record store =
  patents :: "patent list"
  patent_cpc_groups :: "patent_cpc_group list"
  pct_datas :: "pct_data list"
  locations :: "location list"
  inventors :: "inventor list"
  assignees :: "assignee list"
  pg_class :: "(string \<times> real) list"

text \<open>
  The expressions of \<open>annotate\<close>: \<open>F(path)\<close>, \<open>Value(text)\<close>, \<open>Concat(...)\<close>,
  \<open>Func(path, function=name)\<close>, and the aggregate
  \<open>StringAgg(expression, delimiter=..., distinct=...)\<close>.
\<close>

datatype expr = F string | Value_text string | Concat "expr list" | Func string string

datatype aggregate = StringAgg expr string bool

text \<open>
  What the datastore and the installed Django decide and this development does not.
  They are parameters of every execution.

  The datastore: the case-insensitive POSIX regex match \<open>text ~* pattern\<close>, the geodesic
  test "within \<open>r\<close> metres" behind \<open>distance_lte\<close>, the text of a \<open>double precision\<close>
  coordinate, and the collation under which PostgreSQL sorts the input of a \<open>DISTINCT\<close>
  aggregate (\<open>collate_le a b\<close>: \<open>a\<close> does not sort after \<open>b\<close>).

  Django, whose version the source does not fix: what \<open>StringAgg\<close> hands back when the
  database returns \<open>NULL\<close>, and whether an annotation compiles. The source passes no
  \<open>default\<close> to \<open>StringAgg\<close>: up to Django 4.2 its \<open>convert_value\<close> turns \<open>NULL\<close> into the
  empty string, from Django 5.0 the value stays \<open>None\<close>. The point aggregates concatenate
  a text value with \<open>ST_X\<close> and \<open>ST_Y\<close> of a point column and set no \<open>output_field\<close>:
  Django 5.1 and later resolve the output field of the operands of \<open>Concat\<close> when they
  compile the query and raise \<open>FieldError\<close> on the mixed types, earlier versions compile
  it.
\<close>

record engine =
  iregex :: "string \<Rightarrow> string \<Rightarrow> bool"
  distance_lte :: "real \<times> real \<Rightarrow> real \<times> real \<Rightarrow> real \<Rightarrow> bool"
  float_text :: "real \<Rightarrow> string"
  collate_le :: "string \<Rightarrow> string \<Rightarrow> bool"
  null_aggregate :: "string option"
  compiles :: "aggregate \<Rightarrow> bool"

section \<open>The ORM: lookups, joins and execution\<close>

text \<open>
  A row of the join that a query runs over: the patent and, for every relation the
  query joins, one related row (\<open>None\<close> where the relation is not joined, or where a
  left outer join found no partner).
\<close>

record jrow =
  j_patent :: patent
  j_link :: "patent_cpc_group option"
  j_pct :: "pct_data option"
  j_inventor :: "inventor option"
  j_inventor_location :: "location option"
  j_assignee :: "assignee option"
  j_assignee_location :: "location option"

text \<open>\<open>lookup.split("__")\<close>.\<close>

fun split_dunder :: "string \<Rightarrow> string list" where
  "split_dunder [] = [[]]"
| "split_dunder [c] = [[c]]"
| "split_dunder (a # b # cs) =
     (if a = CHR ''_'' \<and> b = CHR ''_'' then [] # split_dunder cs
      else (case split_dunder (b # cs) of [] \<Rightarrow> [[a]] | p # ps \<Rightarrow> (a # p) # ps))"

text \<open>
  Every name that Django resolves on \<open>Patent\<close>: the primary key, the declared fields
  and the reverse accessors (\<open>related_name\<close>) of the models that point to it. A lookup
  whose first component is not among them raises \<open>FieldError\<close> ("Cannot resolve keyword
  ... into field") when the query is built.
\<close>

definition patent_names :: "string list" where
  "patent_names =
     [''id'', ''pk'', ''office'', ''office_patent_id'', ''type'', ''application_filed_date'',
      ''granted_date'', ''title'', ''abstract_processed'', ''claims_count'', ''figures_count'',
      ''sheets_count'', ''withdrawn'', ''granted_year'', ''application_year'',
      ''years_to_get_granted'', ''title_processed'', ''title_word_count_without_processing'',
      ''title_word_count_with_processing'', ''abstract_word_count_without_processing'',
      ''abstract_word_count_with_processing'', ''cpc_groups_count'', ''assignee_count'',
      ''inventor_count'', ''incoming_citations_count'', ''outgoing_citations_count'',
      ''representation'',
      ''cpc_groups'', ''pct_data'', ''inventors'', ''assignees'', ''citations'', ''cited_by'']"

text \<open>The columns a path can end in, by type, as a function of the joined row.\<close>

datatype col =
    TextCol "jrow \<Rightarrow> string option"
  | IntCol "jrow \<Rightarrow> int option"
  | DateCol "jrow \<Rightarrow> int option"
  | BoolCol "jrow \<Rightarrow> bool option"
  | PointCol "jrow \<Rightarrow> (real \<times> real) option"

text \<open>
  The paths from \<open>Patent\<close> that are given a meaning: the columns of \<open>Patent\<close> that the
  functions read, and the columns of the related tables they reach. The path
  \<open>cpc_groups__cpc_group__group\<close> ends in the primary key of \<open>CPCGroup\<close>, which is the
  value of the foreign key \<open>cpc_groups__cpc_group\<close> itself.
\<close>

definition column :: "string list \<Rightarrow> col option" where
  "column names = map_of
     [([''id''], IntCol (\<lambda>j. Some (patent_id (j_patent j)))),
      ([''office''], TextCol (\<lambda>j. Some (office (j_patent j)))),
      ([''type''], TextCol (\<lambda>j. patent_type (j_patent j))),
      ([''application_filed_date''], DateCol (\<lambda>j. application_filed_date (j_patent j))),
      ([''granted_date''], DateCol (\<lambda>j. Some (granted_date (j_patent j)))),
      ([''title''], TextCol (\<lambda>j. Some (title (j_patent j)))),
      ([''abstract_processed''], TextCol (\<lambda>j. abstract_processed (j_patent j))),
      ([''claims_count''], IntCol (\<lambda>j. Some (claims_count (j_patent j)))),
      ([''figures_count''], IntCol (\<lambda>j. figures_count (j_patent j))),
      ([''sheets_count''], IntCol (\<lambda>j. sheets_count (j_patent j))),
      ([''withdrawn''], BoolCol (\<lambda>j. Some (withdrawn (j_patent j)))),
      ([''cpc_groups'', ''cpc_group''], TextCol (\<lambda>j. map_option link_cpc_group (j_link j))),
      ([''cpc_groups'', ''cpc_group'', ''group''],
         TextCol (\<lambda>j. map_option link_cpc_group (j_link j))),
      ([''pct_data'', ''published_or_filed_date''],
         DateCol (\<lambda>j. map_option published_or_filed_date (j_pct j))),
      ([''pct_data'', ''granted''], BoolCol (\<lambda>j. map_option granted (j_pct j))),
      ([''pct_data'', ''representation''],
         TextCol (\<lambda>j. Option.bind (j_pct j) pct_representation)),
      ([''inventors'', ''first_name''],
         TextCol (\<lambda>j. Option.bind (j_inventor j) inventor_first_name)),
      ([''inventors'', ''last_name''],
         TextCol (\<lambda>j. Option.bind (j_inventor j) inventor_last_name)),
      ([''inventors'', ''male''], BoolCol (\<lambda>j. Option.bind (j_inventor j) male)),
      ([''inventors'', ''location'', ''point''],
         PointCol (\<lambda>j. Option.bind (j_inventor_location j) point)),
      ([''assignees'', ''first_name''],
         TextCol (\<lambda>j. Option.bind (j_assignee j) assignee_first_name)),
      ([''assignees'', ''last_name''],
         TextCol (\<lambda>j. Option.bind (j_assignee j) assignee_last_name)),
      ([''assignees'', ''organization''],
         TextCol (\<lambda>j. Option.bind (j_assignee j) organization)),
      ([''assignees'', ''location'', ''point''],
         PointCol (\<lambda>j. Option.bind (j_assignee_location j) point))]
     names"

text \<open>
  A lookup applied to a column and the Python value of the condition. A \<open>NULL\<close> column
  satisfies no comparison. The value must have the column's type; Django's coercions of
  other values are not modelled.
\<close>

definition lookup_pred :: "string \<Rightarrow> col \<Rightarrow> pyval \<Rightarrow> error + (engine \<Rightarrow> jrow \<Rightarrow> bool)" where
  "lookup_pred lk c v =
     (if lk = ''exact'' then
        (case (c, v) of
           (TextCol f, PStr s) \<Rightarrow> Inr (\<lambda>E j. f j = Some s)
         | (IntCol f, PInt n) \<Rightarrow> Inr (\<lambda>E j. f j = Some n)
         | (DateCol f, PDate n) \<Rightarrow> Inr (\<lambda>E j. f j = Some n)
         | (BoolCol f, PBool b) \<Rightarrow> Inr (\<lambda>E j. f j = Some b)
         | _ \<Rightarrow> Inl NotModelled)
      else if lk = ''gte'' then
        (case (c, v) of
           (IntCol f, PInt n) \<Rightarrow> Inr (\<lambda>E j. case f j of None \<Rightarrow> False | Some x \<Rightarrow> n \<le> x)
         | (DateCol f, PDate n) \<Rightarrow> Inr (\<lambda>E j. case f j of None \<Rightarrow> False | Some x \<Rightarrow> n \<le> x)
         | _ \<Rightarrow> Inl NotModelled)
      else if lk = ''lte'' then
        (case (c, v) of
           (IntCol f, PInt n) \<Rightarrow> Inr (\<lambda>E j. case f j of None \<Rightarrow> False | Some x \<Rightarrow> x \<le> n)
         | (DateCol f, PDate n) \<Rightarrow> Inr (\<lambda>E j. case f j of None \<Rightarrow> False | Some x \<Rightarrow> x \<le> n)
         | _ \<Rightarrow> Inl NotModelled)
      else if lk = ''iregex'' then
        (case (c, v) of
           (TextCol f, PStr r) \<Rightarrow>
             Inr (\<lambda>E j. case f j of None \<Rightarrow> False | Some t \<Rightarrow> iregex E r t)
         | _ \<Rightarrow> Inl NotModelled)
      else if lk = ''in'' then
        (case (c, v) of
           (TextCol f, PList vs) \<Rightarrow>
             (case as_strs vs of
                Inl e \<Rightarrow> Inl NotModelled
              | Inr ss \<Rightarrow> Inr (\<lambda>E j. case f j of None \<Rightarrow> False | Some t \<Rightarrow> t \<in> set ss))
         | _ \<Rightarrow> Inl NotModelled)
      else if lk = ''distance_lte'' then
        (case (c, v) of
           (PointCol f, PTuple [PPoint x y, PDistance r]) \<Rightarrow>
             Inr (\<lambda>E j. case f j of None \<Rightarrow> False | Some p \<Rightarrow> distance_lte E p (x, y) r)
         | _ \<Rightarrow> Inl NotModelled)
      else Inl NotModelled)"

text \<open>
  One condition \<open>(key, value)\<close> of a Q object, as \<open>Query.build_filter\<close> resolves it:
  the first component must be a name of \<open>Patent\<close>; the longest path that is a column is
  taken, what remains is the lookup (\<open>exact\<close> when nothing remains).
\<close>

definition compile_leaf :: "string \<Rightarrow> pyval \<Rightarrow> error + (engine \<Rightarrow> jrow \<Rightarrow> bool)" where
  "compile_leaf key v =
     (let names = split_dunder key in
      if hd names \<notin> set patent_names then Inl FieldError
      else
        (case column names of
           Some c \<Rightarrow> lookup_pred ''exact'' c v
         | None \<Rightarrow>
             (case column (butlast names) of
                Some c \<Rightarrow> lookup_pred (last names) c v
              | None \<Rightarrow> Inl NotModelled)))"

text \<open>
  Building the query visits the conditions from left to right; the first one that
  cannot be resolved raises.
\<close>

fun first_error :: "(string \<times> pyval) list \<Rightarrow> error option" where
  "first_error [] = None"
| "first_error (kv # kvs) =
     (case compile_leaf (fst kv) (snd kv) of
        Inl e \<Rightarrow> Some e
      | Inr p \<Rightarrow> first_error kvs)"

definition check :: "qnode \<Rightarrow> error option" where
  "check q = first_error (leaves q)"

text \<open>
  Whether a joined row satisfies a Q object. A node without children constrains
  nothing.
\<close>

fun holds :: "engine \<Rightarrow> qnode \<Rightarrow> jrow \<Rightarrow> bool" where
  "holds E (Cond k v) j = (case compile_leaf k v of Inl e \<Rightarrow> False | Inr p \<Rightarrow> p E j)"
| "holds E (Q c xs) j =
     (xs = [] \<or>
      (case c of
         AND \<Rightarrow> list_all (\<lambda>x. holds E x j) xs
       | OR \<Rightarrow> list_ex (\<lambda>x. holds E x j) xs))"

text \<open>
  The relations a query joins. Within one \<open>filter()\<close> call every condition on the same
  relation uses the same join, so one related row per relation must satisfy all of its
  conditions.
\<close>

datatype join_alias =
  LinkA | PctA | InventorA | InventorLocationA | AssigneeA | AssigneeLocationA

definition path_aliases :: "string list \<Rightarrow> join_alias list" where
  "path_aliases names =
     (case names of
        [] \<Rightarrow> []
      | n # rest \<Rightarrow>
          if n = ''cpc_groups'' then [LinkA]
          else if n = ''pct_data'' then [PctA]
          else if n = ''inventors''
            then InventorA # (if take 1 rest = [''location''] then [InventorLocationA] else [])
          else if n = ''assignees''
            then AssigneeA # (if take 1 rest = [''location''] then [AssigneeLocationA] else [])
          else [])"

definition q_aliases :: "qnode \<Rightarrow> join_alias list" where
  "q_aliases q = concat (map (\<lambda>kv. path_aliases (split_dunder (fst kv))) (leaves q))"

fun expr_paths :: "expr \<Rightarrow> string list" where
  "expr_paths (F path) = [path]"
| "expr_paths (Value_text s) = []"
| "expr_paths (Concat es) = concat (map expr_paths es)"
| "expr_paths (Func path fn) = [path]"

fun aggregate_paths :: "aggregate \<Rightarrow> string list" where
  "aggregate_paths (StringAgg e delim distinct_flag) = expr_paths e"

text \<open>
  An unexecuted \<open>QuerySet\<close> over \<open>Patent\<close>: the predicate of its \<open>filter\<close>, its
  annotations and its ordering.
\<close>

record queryset =
  qs_where :: qnode
  qs_annotations :: "(string \<times> aggregate) list"
  qs_order_by :: "string list"

text \<open>
  \<open>Patent.objects.filter(query)\<close>. The query is built when \<open>filter\<close> is called, so an
  unresolvable lookup raises there; no row is read.
\<close>

definition objects_filter :: "qnode \<Rightarrow> error + queryset" where
  "objects_filter q =
     (case check q of
        Some e \<Rightarrow> Inl e
      | None \<Rightarrow> Inr \<lparr>qs_where = q, qs_annotations = [], qs_order_by = []\<rparr>)"

text \<open>
  \<open>Patent.filter(data)\<close>: the bundle as the call leaves it, and the result set or the
  exception.
\<close>

definition Patent_filter :: "data \<Rightarrow> data \<times> (error + queryset)" where
  "Patent_filter d =
     (case patent_query d of
        Inl e \<Rightarrow> (d, Inl e)
      | Inr pq \<Rightarrow>
          (case dedupe d of
             (d', Some e) \<Rightarrow> (d', Inl e)
           | (d', None) \<Rightarrow> (d', bind (related_query d' pq) objects_filter)))"

text \<open>\<open>Patent.fetch_representation(patents)\<close>: lines 341 to 386.\<close>

definition representation_annotations :: "(string \<times> aggregate) list" where
  "representation_annotations =
     [(''cpc_groups_groups'', StringAgg (F ''cpc_groups__cpc_group__group'') '', '' True),
      (''pct_documents'', StringAgg (F ''pct_data__representation'') '', '' True),
      (''inventor_names'',
         StringAgg (Concat [F ''inventors__first_name'', Value_text '' '', F ''inventors__last_name''])
           '', '' True),
      (''inventor_points'',
         StringAgg (Concat [Func ''inventors__location__point'' ''ST_X'', Value_text ''|'',
                            Func ''inventors__location__point'' ''ST_Y''])
           '','' True),
      (''assignee_names'',
         StringAgg (Concat [F ''assignees__first_name'', Value_text '' '', F ''assignees__last_name'',
                            Value_text '' '', F ''assignees__organization''])
           '', '' True),
      (''assignee_points'',
         StringAgg (Concat [Func ''assignees__location__point'' ''ST_X'', Value_text ''|'',
                            Func ''assignees__location__point'' ''ST_Y''])
           '','' True)]"

definition Patent_fetch_representation :: "queryset \<Rightarrow> queryset" where
  "Patent_fetch_representation qs =
     qs\<lparr>qs_annotations := qs_annotations qs @ representation_annotations,
        qs_order_by := [''id'']\<rparr>"

text \<open>
  How a relation enters the SQL of a query: with an inner join when the predicate has a
  condition on it, with a left outer join when only an annotation reads it (an
  annotation reuses the join of the filter), not at all otherwise.
\<close>

datatype jkind = NoJoin | Inner | LeftOuter

definition join_kind :: "queryset \<Rightarrow> join_alias \<Rightarrow> jkind" where
  "join_kind qs a =
     (if a \<in> set (q_aliases (qs_where qs)) then Inner
      else if a \<in> set (concat (map (\<lambda>na. concat (map (\<lambda>path. path_aliases (split_dunder path))
                                                   (aggregate_paths (snd na))))
                                (qs_annotations qs)))
        then LeftOuter
      else NoJoin)"

definition candidates :: "jkind \<Rightarrow> 'a list \<Rightarrow> 'a option list" where
  "candidates k rows =
     (case k of
        NoJoin \<Rightarrow> [None]
      | Inner \<Rightarrow> map Some rows
      | LeftOuter \<Rightarrow> if rows = [] then [None] else map Some rows)"

definition location_of :: "store \<Rightarrow> int option option \<Rightarrow> location list" where
  "location_of S fk =
     (case fk of
        Some (Some l) \<Rightarrow> filter (\<lambda>x. location_id x = l) (locations S)
      | _ \<Rightarrow> [])"

definition patent_jrows :: "store \<Rightarrow> (join_alias \<Rightarrow> jkind) \<Rightarrow> patent \<Rightarrow> jrow list" where
  "patent_jrows S k p =
     [\<lparr>j_patent = p, j_link = l, j_pct = c, j_inventor = i, j_inventor_location = il,
       j_assignee = a, j_assignee_location = al\<rparr>.
        l \<leftarrow> candidates (k LinkA) (filter (\<lambda>r. link_patent r = patent_id p) (patent_cpc_groups S)),
        c \<leftarrow> candidates (k PctA) (filter (\<lambda>r. pct_patent r = patent_id p) (pct_datas S)),
        i \<leftarrow> candidates (k InventorA)
               (filter (\<lambda>r. inventor_patent r = patent_id p) (inventors S)),
        il \<leftarrow> candidates (k InventorLocationA) (location_of S (map_option inventor_location i)),
        a \<leftarrow> candidates (k AssigneeA)
               (filter (\<lambda>r. assignee_patent r = patent_id p) (assignees S)),
        al \<leftarrow> candidates (k AssigneeLocationA) (location_of S (map_option assignee_location a))]"

text \<open>The rows of the join that pass the \<open>WHERE\<close> clause, in storage order.\<close>

definition matched :: "engine \<Rightarrow> store \<Rightarrow> queryset \<Rightarrow> jrow list" where
  "matched E S qs =
     filter (holds E (qs_where qs)) (concat (map (patent_jrows S (join_kind qs)) (patents S)))"

text \<open>
  The value of an expression on a joined row, \<open>None\<close> for \<open>NULL\<close>. \<open>Concat\<close> treats
  \<open>NULL\<close> as the empty text.
\<close>

fun eval_expr :: "engine \<Rightarrow> expr \<Rightarrow> jrow \<Rightarrow> string option" where
  "eval_expr E (F path) j =
     (case column (split_dunder path) of Some (TextCol f) \<Rightarrow> f j | _ \<Rightarrow> None)"
| "eval_expr E (Value_text s) j = Some s"
| "eval_expr E (Concat es) j =
     Some (concat (map (\<lambda>e. case eval_expr E e j of None \<Rightarrow> [] | Some s \<Rightarrow> s) es))"
| "eval_expr E (Func path fn) j =
     (case column (split_dunder path) of
        Some (PointCol f) \<Rightarrow>
          (case f j of
             None \<Rightarrow> None
           | Some xy \<Rightarrow>
               if fn = ''ST_X'' then Some (float_text E (fst xy))
               else if fn = ''ST_Y'' then Some (float_text E (snd xy))
               else None)
      | _ \<Rightarrow> None)"

text \<open>
  Sorting under a collation, by insertion. Nothing is asked of the relation.
\<close>

fun insert_collated :: "('a \<Rightarrow> 'a \<Rightarrow> bool) \<Rightarrow> 'a \<Rightarrow> 'a list \<Rightarrow> 'a list" where
  "insert_collated le x [] = [x]"
| "insert_collated le x (y # ys) =
     (if le x y then x # y # ys else y # insert_collated le x ys)"

definition collated :: "('a \<Rightarrow> 'a \<Rightarrow> bool) \<Rightarrow> 'a list \<Rightarrow> 'a list" where
  "collated le xs = foldr (insert_collated le) xs []"

text \<open>
  PostgreSQL's \<open>string_agg([DISTINCT] value, delimiter)\<close> over the values of a group:
  \<open>NULL\<close>s are skipped, and the aggregate of no value is \<open>NULL\<close>. SQL leaves the order of
  the entries open; PostgreSQL sorts the input of a \<open>DISTINCT\<close> aggregate to drop the
  duplicates, so the distinct entries come out in the order of the collation.
\<close>

definition string_agg ::
  "(string \<Rightarrow> string \<Rightarrow> bool) \<Rightarrow> bool \<Rightarrow> string \<Rightarrow> string option list \<Rightarrow> string option" where
  "string_agg le distinct_flag delim vals =
     (let xs = concat (map (\<lambda>v. case v of None \<Rightarrow> [] | Some s \<Rightarrow> [s]) vals);
          ys = (if distinct_flag then collated le (remdups xs) else xs)
      in if ys = [] then None else Some (intercalate delim ys))"

text \<open>
  The value of a \<open>StringAgg\<close> annotation on the rows of a group: what the database
  returns, with \<open>NULL\<close> converted as the installed Django does.
\<close>

fun eval_aggregate :: "engine \<Rightarrow> aggregate \<Rightarrow> jrow list \<Rightarrow> string option" where
  "eval_aggregate E (StringAgg e delim distinct_flag) g =
     (case string_agg (collate_le E) distinct_flag delim (map (eval_expr E e) g) of
        None \<Rightarrow> null_aggregate E
      | Some s \<Rightarrow> Some s)"

text \<open>
  Executing a compiled query set. Without annotations every matching row of the join
  yields its patent. With aggregate annotations the rows are grouped by the patent's key, one
  result per group, carrying the aggregates. \<open>order_by("id")\<close> sorts the results by key;
  without an ordering they come in storage order.
\<close>

definition group_result ::
  "engine \<Rightarrow> (string \<times> aggregate) list \<Rightarrow> jrow list \<Rightarrow> int \<Rightarrow> (patent \<times> (string \<times> string option) list) list" where
  "group_result E anns rows i =
     (case filter (\<lambda>j. patent_id (j_patent j) = i) rows of
        [] \<Rightarrow> []
      | j # g \<Rightarrow> [(j_patent j, map (\<lambda>na. (fst na, eval_aggregate E (snd na) (j # g))) anns)])"

definition execute ::
  "engine \<Rightarrow> store \<Rightarrow> queryset \<Rightarrow> (patent \<times> (string \<times> string option) list) list" where
  "execute E S qs =
     (let rows = matched E S qs;
          results =
            (if qs_annotations qs = [] then map (\<lambda>j. (j_patent j, [])) rows
             else concat (map (group_result E (qs_annotations qs) rows)
                              (remdups (map (\<lambda>j. patent_id (j_patent j)) rows))))
      in if qs_order_by qs = [''id''] then sort_key (\<lambda>r. patent_id (fst r)) results
         else results)"

text \<open>
  Evaluating a query set (iterating it): Django compiles the query, annotations
  included, and raises \<open>FieldError\<close> when one does not compile; otherwise the database
  executes it.
\<close>

definition evaluate ::
  "engine \<Rightarrow> store \<Rightarrow> queryset \<Rightarrow> error + (patent \<times> (string \<times> string option) list) list" where
  "evaluate E S qs =
     (if list_all (\<lambda>na. compiles E (snd na)) (qs_annotations qs) then Inr (execute E S qs)
      else Inl FieldError)"

text \<open>
  \<open>Patent.approximate_count()\<close>: the \<open>reltuples\<close> of the first \<open>pg_class\<close> row named
  after the patent table (\<open>main_patent\<close>, the default table name of model \<open>Patent\<close> in
  the application \<open>main\<close>), through Python's \<open>int\<close>, which truncates towards zero. When
  there is no such row \<open>fetchone()\<close> returns \<open>None\<close> and the subscript raises
  \<open>TypeError\<close>.
\<close>

definition py_int :: "real \<Rightarrow> int" where
  "py_int x = (if 0 \<le> x then \<lfloor>x\<rfloor> else \<lceil>x\<rceil>)"

definition Patent_db_table :: string where
  "Patent_db_table = ''main_patent''"

definition Patent_approximate_count :: "store \<Rightarrow> error + int" where
  "Patent_approximate_count S =
     (case filter (\<lambda>r. fst r = Patent_db_table) (pg_class S) of
        [] \<Rightarrow> Inl TypeError
      | r # rs \<Rightarrow> Inr (py_int (snd r)))"

section \<open>Notions used in the statements\<close>

text \<open>The values a predicate holds for one lookup, left to right.\<close>

definition lookup_values :: "string \<Rightarrow> qnode \<Rightarrow> pyval list" where
  "lookup_values fld q = map snd (filter (\<lambda>kv. fst kv = fld) (leaves q))"

text \<open>
  The lookups a predicate has conditions on, and the lookups each fragment of
  \<open>Patent.filter\<close> can produce.
\<close>

definition fields :: "qnode \<Rightarrow> string set" where
  "fields q = fst ` set (leaves q)"

definition patent_lookups :: "string list" where
  "patent_lookups =
     [''office'', ''type'', ''application_filed_date__gte'', ''application_filed_date__lte'',
      ''granted_date__gte'', ''granted_date__lte'', ''figures_count__gte'',
      ''figures_count__lte'', ''claims_count__gte'', ''claims_count__lte'',
      ''sheets_count__gte'', ''sheets_count__lte'', ''withdrawn'', ''title__iregex'',
      ''abstract__iregex'']"

definition cpc_lookups :: "string list" where
  "cpc_lookups = [''cpc_groups__cpc_group__group__iregex'', ''cpc_groups__cpc_group__in'']"

definition pct_lookups :: "string list" where
  "pct_lookups =
     [''pct_data__published_or_filed_date__gte'', ''pct_data__published_or_filed_date__lte'',
      ''pct_data__granted'']"

definition inventor_lookups :: "string list" where
  "inventor_lookups =
     [''inventors__first_name__iregex'', ''inventors__last_name__in'', ''inventors__male'',
      ''inventors__location__point__distance_lte'']"

definition assignee_lookups :: "string list" where
  "assignee_lookups =
     [''assignees__first_name__iregex'', ''assignees__last_name__in'',
      ''assignees__organization__in'', ''assignees__location__point__distance_lte'']"

text \<open>
  A code is covered by a selection when it starts with one of the selected codes;
  \<open>prune_by\<close> drops the covered codes of a finer selection.
\<close>

definition covered :: "string list \<Rightarrow> string \<Rightarrow> bool" where
  "covered coarser k = list_ex (\<lambda>c. take (length c) k = c) coarser"

definition prune_by :: "string list \<Rightarrow> string list \<Rightarrow> string list" where
  "prune_by coarser xs = filter (\<lambda>k. \<not> covered coarser k) xs"

text \<open>The joined row of a patent in a query without joins.\<close>

definition bare_row :: "patent \<Rightarrow> jrow" where
  "bare_row p =
     \<lparr>j_patent = p, j_link = None, j_pct = None, j_inventor = None,
      j_inventor_location = None, j_assignee = None, j_assignee_location = None\<rparr>"




definition unset_at :: "data \<Rightarrow> string \<Rightarrow> bool" where
  "unset_at d k = (d k = Some PNone)"


text \<open>
  The empty values of the dimensions: \<open>None\<close>, the empty string or the empty list for a
  dimension that is tested for truthiness; the empty list for a list the code iterates;
  \<open>None\<close>, or a \<open>dict\<close> whose \<open>min\<close> and \<open>max\<close> are both \<open>None\<close>, for a range; \<open>None\<close> for a
  flag. A bound of zero is a value, not an empty one.
\<close>

definition blank_at :: "data \<Rightarrow> string \<Rightarrow> bool" where
  "blank_at d k = (d k = Some PNone \<or> d k = Some (PStr []) \<or> d k = Some (PList []))"

definition no_list_at :: "data \<Rightarrow> string \<Rightarrow> bool" where
  "no_list_at d k = (d k = Some (PList []))"

definition no_range_at :: "data \<Rightarrow> string \<Rightarrow> bool" where
  "no_range_at d k =
     (case d k of
        None \<Rightarrow> False
      | Some v \<Rightarrow>
          v = PNone \<or> (getitem v ''min'' = Inr PNone \<and> getitem v ''max'' = Inr PNone))"

text \<open>
  A bundle that has every key and no criterion: each dimension holds its empty value,
  and the keyword logic is some string.
\<close>

definition no_criteria :: "data \<Rightarrow> bool" where
  "no_criteria d =
     ((case d ''patent_keywords_logic'' of Some (PStr sep) \<Rightarrow> True | _ \<Rightarrow> False) \<and>
      no_list_at d ''patent_keywords'' \<and>
      blank_at d ''patent_office'' \<and>
      blank_at d ''patent_type'' \<and>
      no_range_at d ''patent_application_filed_date'' \<and>
      no_range_at d ''patent_granted_date'' \<and>
      no_range_at d ''patent_figures_count'' \<and>
      no_range_at d ''patent_claims_count'' \<and>
      no_range_at d ''patent_sheets_count'' \<and>
      unset_at d ''patent_withdrawn'' \<and>
      no_list_at d ''cpc_section'' \<and>
      no_list_at d ''cpc_class'' \<and>
      no_list_at d ''cpc_subclass'' \<and>
      no_list_at d ''cpc_group'' \<and>
      no_range_at d ''pct_application_date'' \<and>
      unset_at d ''pct_granted'' \<and>
      blank_at d ''inventor_first_name'' \<and>
      blank_at d ''inventor_last_name'' \<and>
      unset_at d ''inventor_male'' \<and>
      blank_at d ''inventor_location'' \<and>
      blank_at d ''assignee_first_name'' \<and>
      blank_at d ''assignee_last_name'' \<and>
      blank_at d ''assignee_organization'' \<and>
      blank_at d ''assignee_location'')"

text \<open>
  The three tri-state dimensions: the key of the bundle, the lookup it constrains and
  the column that lookup reads.
\<close>

definition tri_state :: "(string \<times> string \<times> (jrow \<Rightarrow> bool option)) list" where
  "tri_state =
     [(''patent_withdrawn'', ''withdrawn'', \<lambda>j. Some (withdrawn (j_patent j))),
      (''pct_granted'', ''pct_data__granted'', \<lambda>j. map_option granted (j_pct j)),
      (''inventor_male'', ''inventors__male'', \<lambda>j. Option.bind (j_inventor j) male)]"

text \<open>
  The two first-name dimensions: the key of the bundle, the lookup and the column.
\<close>

definition first_name_dims :: "(string \<times> string \<times> (jrow \<Rightarrow> string option)) list" where
  "first_name_dims =
     [(''inventor_first_name'', ''inventors__first_name__iregex'',
         \<lambda>j. Option.bind (j_inventor j) inventor_first_name),
      (''assignee_first_name'', ''assignees__first_name__iregex'',
         \<lambda>j. Option.bind (j_assignee j) assignee_first_name)]"

section \<open>Example inputs\<close>

text \<open>The cleaned data of a search form in which nothing is filled in.\<close>

definition empty_form :: data where
  "empty_form =
     [''patent_keywords_logic'' \<mapsto> PStr ''|'',
      ''patent_keywords'' \<mapsto> PList [],
      ''patent_office'' \<mapsto> PStr [],
      ''patent_type'' \<mapsto> PStr [],
      ''patent_application_filed_date'' \<mapsto> PNone,
      ''patent_granted_date'' \<mapsto> PNone,
      ''patent_figures_count'' \<mapsto> PNone,
      ''patent_claims_count'' \<mapsto> PNone,
      ''patent_sheets_count'' \<mapsto> PNone,
      ''patent_withdrawn'' \<mapsto> PNone,
      ''cpc_section'' \<mapsto> PList [],
      ''cpc_class'' \<mapsto> PList [],
      ''cpc_subclass'' \<mapsto> PList [],
      ''cpc_group'' \<mapsto> PList [],
      ''pct_application_date'' \<mapsto> PNone,
      ''pct_granted'' \<mapsto> PNone,
      ''inventor_first_name'' \<mapsto> PList [],
      ''inventor_last_name'' \<mapsto> PList [],
      ''inventor_male'' \<mapsto> PNone,
      ''inventor_location'' \<mapsto> PNone,
      ''assignee_first_name'' \<mapsto> PList [],
      ''assignee_last_name'' \<mapsto> PList [],
      ''assignee_organization'' \<mapsto> PList [],
      ''assignee_location'' \<mapsto> PNone]"

text \<open>The form with one more field filled in.\<close>

definition keyword_form :: data where
  "keyword_form = empty_form(''patent_keywords'' \<mapsto> PList [PStr ''golf'', PStr ''tennis''])"

definition section_group_form :: data where
  "section_group_form =
     empty_form(''cpc_section'' \<mapsto> PList [PStr ''A''],
                ''cpc_group'' \<mapsto> PList [PStr ''A63B71/146''])"

definition max_zero_form :: data where
  "max_zero_form =
     empty_form(''patent_figures_count'' \<mapsto> PDict [(''min'', PNone), (''max'', PInt 0)])"

definition smith_form :: data where
  "smith_form = empty_form(''inventor_last_name'' \<mapsto> PList [PStr ''Smith''])"

definition not_withdrawn_form :: data where
  "not_withdrawn_form = empty_form(''patent_withdrawn'' \<mapsto> PBool False)"

definition jo_ma_form :: data where
  "jo_ma_form = empty_form(''inventor_first_name'' \<mapsto> PList [PStr ''Jo'', PStr ''Ma''])"

text \<open>
  A small snapshot: patent 7, stored first, with two classification groups and two
  inventors named Smith, and patent 3 with five figures and no related row. The planner
  estimates 1234.5 rows for the patent table.
\<close>

definition example_patent :: "int \<Rightarrow> string \<Rightarrow> int option \<Rightarrow> patent" where
  "example_patent i t figs =
     \<lparr>patent_id = i, office = ''USPTO'', office_patent_id = ''X'', patent_type = Some ''utility'',
      application_filed_date = None, granted_date = 730000, title = t,
      abstract_processed = None, claims_count = 1, figures_count = figs, sheets_count = None,
      withdrawn = False, granted_year = None, application_year = None,
      years_to_get_granted = None, title_processed = None,
      title_word_count_without_processing = None, title_word_count_with_processing = None,
      abstract_word_count_without_processing = None,
      abstract_word_count_with_processing = None, cpc_groups_count = None,
      assignee_count = None, inventor_count = None, incoming_citations_count = None,
      outgoing_citations_count = None, representation = None\<rparr>"

definition example_store :: store where
  "example_store =
     \<lparr>patents = [example_patent 7 ''Golf gloves'' None, example_patent 3 ''Kettle'' (Some 5)],
      patent_cpc_groups =
        [\<lparr>link_id = 1, link_patent = 7, link_cpc_group = ''A63B71/146''\<rparr>,
         \<lparr>link_id = 2, link_patent = 7, link_cpc_group = ''B01D1/00''\<rparr>],
      pct_datas = [],
      locations = [],
      inventors =
        [\<lparr>inventor_id = 1, inventor_patent = 7, inventor_location = None,
          inventor_first_name = Some ''Ann'', inventor_last_name = Some ''Smith'', male = Some False\<rparr>,
         \<lparr>inventor_id = 2, inventor_patent = 7, inventor_location = None,
          inventor_first_name = Some ''Bob'', inventor_last_name = Some ''Smith'', male = Some True\<rparr>],
      assignees = [],
      pg_class = [(''main_inventor'', 2), (''main_patent'', 1234.5)]\<rparr>"

text \<open>
  The same tables under different planner statistics, and different tables under the
  same statistics.
\<close>

definition example_store_more_rows :: store where
  "example_store_more_rows =
     example_store\<lparr>patents := example_patent 9 ''Lamp'' None # patents example_store\<rparr>"

text \<open>
  An engine for the examples. None of them consults a regex, a distance or a coordinate.
  Entries are sorted bytewise (the \<open>C\<close> collation), an aggregate over no value is the
  empty string, as up to Django 4.2, and every annotation compiles.
\<close>

fun bytes_le :: "string \<Rightarrow> string \<Rightarrow> bool" where
  "bytes_le [] t = True"
| "bytes_le (a # s) [] = False"
| "bytes_le (a # s) (b # t) = ((of_char a :: nat) < of_char b \<or> (a = b \<and> bytes_le s t))"

definition example_engine :: engine where
  "example_engine =
     \<lparr>iregex = (\<lambda>pattern text. False), distance_lte = (\<lambda>p c r. False),
      float_text = (\<lambda>x. []), collate_le = bytes_le, null_aggregate = Some [],
      compiles = (\<lambda>a. True)\<rparr>"

text \<open>The same engine under Django 5.0, where an aggregate over no value stays \<open>None\<close>.\<close>

definition example_engine_django_5_0 :: engine where
  "example_engine_django_5_0 = example_engine\<lparr>null_aggregate := None\<rparr>"

section \<open>Basic facts\<close>

lemma bind_Inr_iff: "bind m f = Inr r \<longleftrightarrow> (\<exists>x. m = Inr x \<and> f x = Inr r)"
  by (cases m) (simp_all add: bind_def)

lemma data_get_Inr_iff: "data_get d k = Inr v \<longleftrightarrow> d k = Some v"
  by (simp add: data_get_def split: option.splits)

lemma list_all_squash: "list_all (\<lambda>x. holds E x j) (squash AND a) = holds E a j"
proof (cases a)
  case (Cond k v)
  then show ?thesis by simp
next
  case (Q c xs)
  show ?thesis
  proof (cases c)
    case AND
    with Q show ?thesis by (cases xs) simp_all
  next
    case OR
    show ?thesis
    proof (cases "length xs = 1")
      case True
      then obtain x where "xs = [x]" by (cases xs) auto
      with Q OR show ?thesis by simp
    next
      case False
      with Q OR show ?thesis by simp
    qed
  qed
qed

lemma holds_empty: "is_empty_q a \<Longrightarrow> holds E a j"
  by (cases a rule: is_empty_q.cases) simp_all

lemma holds_Q_AND: "holds E (Q AND xs) j = list_all (\<lambda>x. holds E x j) xs"
  by (cases xs) simp_all

text \<open>\<open>a & b\<close> holds exactly where both operands hold, and has the conditions of both.\<close>

lemma holds_and_q: "holds E (and_q a b) j = (holds E a j \<and> holds E b j)"
  by (simp add: and_q_def combine_def holds_empty holds_Q_AND list_all_squash del: holds.simps)

lemma leaves_squash: "concat (map leaves (squash conn a)) = leaves a"
  by (cases a) auto

lemma leaves_empty: "is_empty_q a \<Longrightarrow> leaves a = []"
  by (cases a rule: is_empty_q.cases) simp_all

lemma leaves_combine: "leaves (combine conn a b) = leaves a @ leaves b"
  by (simp add: combine_def leaves_squash leaves_empty)

lemma leaves_and_q: "leaves (and_q a b) = leaves a @ leaves b"
  by (simp add: and_q_def leaves_combine)

lemma leaves_or_q: "leaves (or_q a b) = leaves a @ leaves b"
  by (simp add: or_q_def leaves_combine)

lemma leaves_Q_kw: "leaves (Q_kw f v) = [(f, v)]"
  by (simp add: Q_kw_def)

lemma leaves_Q_empty: "leaves Q_empty = []"
  by (simp add: Q_empty_def)

lemma holds_Q_empty: "holds E Q_empty j"
  by (simp add: Q_empty_def)

lemma holds_Q_kw: "holds E (Q_kw f v) j = holds E (Cond f v) j"
  by (simp add: Q_kw_def)

section \<open>The approximate count (claim C9)\<close>

text \<open>
  Claim C9: \<open>approximate_count\<close> is a function of the planner statistics of the patent
  table alone. It takes no criteria, and two snapshots with the same statistics give the
  same answer, whatever their tables hold; in particular two calls on one snapshot agree.
\<close>

theorem approximate_count_reads_statistics_only:
  "pg_class S = pg_class S' \<Longrightarrow> Patent_approximate_count S = Patent_approximate_count S'"
  by (simp add: Patent_approximate_count_def)

theorem approximate_count_reads_statistics_only_witness:
  "pg_class example_store = pg_class example_store_more_rows \<and>
   length (patents example_store) = 2 \<and>
   length (patents example_store_more_rows) = 3 \<and>
   Patent_approximate_count example_store = Inr 1234 \<and>
   Patent_approximate_count example_store = Patent_approximate_count example_store_more_rows"
proof -
  have h: "pg_class example_store = pg_class example_store_more_rows"
    by (simp add: example_store_more_rows_def)
  have "length (patents example_store) = 2" "length (patents example_store_more_rows) = 3"
    by (simp_all add: example_store_more_rows_def example_store_def)
  moreover have "Patent_approximate_count example_store = Inr 1234"
    by code_simp
  ultimately show ?thesis
    using h approximate_count_reads_statistics_only [OF h] by simp
qed

section \<open>What the call does to its bundle (claim C5)\<close>

lemma prune_other:
  "prune below key d = Inr d' \<Longrightarrow> k \<noteq> below \<Longrightarrow> d' k = d k"
  by (auto simp: prune_def bind_Inr_iff)

lemma for_keys_other: "k \<noteq> below \<Longrightarrow> fst (for_keys below keys d) k = d k"
proof (induction keys arbitrary: d)
  case Nil
  then show ?case by simp
next
  case (Cons key keys)
  show ?case
  proof (cases "prune below key d")
    case (Inl e)
    then show ?thesis by simp
  next
    case (Inr d')
    with Cons prune_other [OF Inr] show ?thesis by simp
  qed
qed

lemma for_below_other: "k \<notin> set rest \<Longrightarrow> fst (for_below level rest d) k = d k"
proof (induction rest arbitrary: d)
  case Nil
  then show ?case by simp
next
  case (Cons below rest)
  show ?case
  proof (cases "bind (data_get d level) iterate")
    case (Inl e)
    then show ?thesis by simp
  next
    case (Inr keys)
    obtain d' r where fk: "for_keys below keys d = (d', r)" by (cases "for_keys below keys d")
    from Cons.prems have "k \<noteq> below" by simp
    from for_keys_other [OF this, of keys d] fk have d': "d' k = d k" by simp
    from Cons.prems have "fst (for_below level rest d') k = d' k" by (intro Cons.IH) simp
    with Inr fk d' show ?thesis by (cases r) simp_all
  qed
qed

lemma for_levels_other: "k \<notin> set (tl levels) \<Longrightarrow> fst (for_levels levels d) k = d k"
proof (induction levels arbitrary: d)
  case Nil
  then show ?case by simp
next
  case (Cons level finer)
  obtain d' r where fb: "for_below level finer d = (d', r)" by (cases "for_below level finer d")
  from Cons.prems have nin: "k \<notin> set finer" by simp
  from for_below_other [OF nin, of level d] fb have d': "d' k = d k" by simp
  from nin have "k \<notin> set (tl finer)" by (cases finer) auto
  then have "fst (for_levels finer d') k = d' k" by (rule Cons.IH)
  with fb d' show ?case by (cases r) simp_all
qed

lemma dedupe_other:
  "k \<notin> {''cpc_class'', ''cpc_subclass'', ''cpc_group''} \<Longrightarrow> fst (dedupe d) k = d k"
  unfolding dedupe_def by (rule for_levels_other) (simp add: hierarchies_def)

lemma fst_Patent_filter:
  "fst (Patent_filter d) = (case patent_query d of Inl e \<Rightarrow> d | Inr pq \<Rightarrow> fst (dedupe d))"
  by (auto simp: Patent_filter_def split: sum.splits prod.splits option.splits)

text \<open>
  Claim C5 says that \<open>filter\<close> leaves its bundle unchanged, the four classification
  selections included. The pruning loop assigns to \<open>data[hierarchy_below]\<close>: after the
  call on the section A and the group A63B71/146 the caller's group selection is empty.
\<close>

theorem filter_overwrites_group_selection:
  "section_group_form ''cpc_group'' = Some (PList [PStr ''A63B71/146'']) \<and>
   fst (Patent_filter section_group_form) ''cpc_group'' = Some (PList [])"
  by code_simp

text \<open>
  Claim C5, amended: the call changes no entry of the bundle other than the class,
  subclass and group selections, whether it returns or raises.
\<close>

theorem filter_changes_only_finer_selections:
  "k \<notin> {''cpc_class'', ''cpc_subclass'', ''cpc_group''} \<Longrightarrow> fst (Patent_filter d) k = d k"
  by (simp add: fst_Patent_filter dedupe_other split: sum.splits)

theorem filter_changes_only_finer_selections_witness:
  "''cpc_section'' \<notin> {''cpc_class'', ''cpc_subclass'', ''cpc_group''} \<and>
   fst (Patent_filter section_group_form) ''cpc_section'' = Some (PList [PStr ''A''])"
proof -
  have h: "''cpc_section'' \<notin> {''cpc_class'', ''cpc_subclass'', ''cpc_group''}" by simp
  have "section_group_form ''cpc_section'' = Some (PList [PStr ''A''])"
    by (simp add: section_group_form_def empty_form_def)
  with h filter_changes_only_finer_selections [OF h, of section_group_form] show ?thesis
    by simp
qed

section \<open>Keyword search (claim C1)\<close>

text \<open>
  Claim C1: with a non-empty keyword list, \<open>filter\<close> constrains the patents by one
  case-insensitive regex, the keywords joined with the logic token, matched against the
  title or the processed abstract. The predicate is built as the claim says, but its
  second condition names the field \<open>abstract\<close>, and \<open>Patent\<close> has no such field (the
  column is \<open>abstract_processed\<close>): for the keywords golf and tennis the fragment is
  \<open>Q(title__iregex="(golf|tennis)") | Q(abstract__iregex="(golf|tennis)")\<close>, and
  \<open>Patent.objects.filter\<close> raises \<open>FieldError\<close> instead of returning patents.
\<close>

theorem keyword_filter_raises_FieldError:
  "patent_query keyword_form =
     Inr (Q OR [Cond ''title__iregex'' (PStr ''(golf|tennis)''),
                Cond ''abstract__iregex'' (PStr ''(golf|tennis)'')]) \<and>
   ''abstract'' \<notin> set patent_names \<and>
   ''abstract_processed'' \<in> set patent_names \<and>
   snd (Patent_filter keyword_form) = Inl FieldError"
  by code_simp

section \<open>Ranges (claim C6)\<close>

text \<open>
  Claim C6: a range with only a maximum adds exactly one \<open>\<le>\<close> constraint (and only a
  minimum exactly one \<open>\<ge>\<close> constraint). \<open>range_query\<close> tests the bounds for truthiness,
  so a bound of 0 counts as absent: with the figures count bounded by a maximum of 0 the
  predicate is empty, and the patent with five figures is returned with the other one.
\<close>

theorem zero_maximum_is_dropped:
  "range_query ''figures_count'' (PDict [(''min'', PNone), (''max'', PInt 0)]) = Inr (Q AND []) \<and>
   snd (Patent_filter max_zero_form) =
     Inr \<lparr>qs_where = Q AND [], qs_annotations = [], qs_order_by = []\<rparr> \<and>
   map (\<lambda>r. (patent_id (fst r), figures_count (fst r)))
       (execute example_engine example_store
          \<lparr>qs_where = Q AND [], qs_annotations = [], qs_order_by = []\<rparr>) =
     [(7, None), (3, Some 5)]"
  by code_simp

section \<open>Hierarchy de-duplication (claim C3)\<close>

lemma startswith_strs: "startswith (PStr s) (PStr k) = Inr (take (length k) s = k)"
  by (simp add: startswith_def)

lemma not_startswith_strs:
  "not_startswith (map PStr xs) (PStr key) =
     Inr (map PStr (filter (\<lambda>k. take (length key) k \<noteq> key) xs))"
  by (induction xs) (simp_all add: startswith_strs bind_def)

lemma covered_Nil: "\<not> covered [] k"
  by (simp add: covered_def)

lemma covered_Cons: "covered (c # cs) k \<longleftrightarrow> take (length c) k = c \<or> covered cs k"
  by (simp add: covered_def)

lemma covered_iff: "covered cs k \<longleftrightarrow> (\<exists>c \<in> set cs. take (length c) k = c)"
  by (simp add: covered_def list_ex_iff)

lemma covered_append: "covered (cs @ ds) k \<longleftrightarrow> covered cs k \<or> covered ds k"
  by (auto simp: covered_iff)

lemma prune_by_Nil: "prune_by [] xs = xs"
  by (simp add: prune_by_def covered_Nil)

lemma prune_by_Cons:
  "prune_by (key # keys) xs = prune_by keys (filter (\<lambda>k. take (length key) k \<noteq> key) xs)"
  by (auto simp: prune_by_def covered_Cons intro: filter_cong)

lemma prune_step:
  assumes "d below = Some (PList (map PStr xs))"
  shows "prune below (PStr key) d =
           Inr (d(below \<mapsto> PList (map PStr (filter (\<lambda>k. take (length key) k \<noteq> key) xs))))"
  using assms by (simp add: prune_def data_get_def bind_def not_startswith_strs)

lemma for_keys_strs:
  "d below = Some (PList (map PStr xs)) \<Longrightarrow>
   for_keys below (map PStr keys) d = (d(below \<mapsto> PList (map PStr (prune_by keys xs))), None)"
proof (induction keys arbitrary: d xs)
  case Nil
  then show ?case by (simp add: prune_by_Nil map_upd_triv)
next
  case (Cons key keys)
  let ?xs = "filter (\<lambda>k. take (length key) k \<noteq> key) xs"
  let ?d = "d(below \<mapsto> PList (map PStr ?xs))"
  have p: "prune below (PStr key) d = Inr ?d"
    by (rule prune_step) (rule Cons.prems)
  have ih: "for_keys below (map PStr keys) ?d =
              (?d(below \<mapsto> PList (map PStr (prune_by keys ?xs))), None)"
    by (rule Cons.IH) simp
  have "for_keys below (map PStr (key # keys)) d = for_keys below (map PStr keys) ?d"
    by (simp only: list.map for_keys.simps p sum.case)
  also note ih
  finally show ?case by (simp only: prune_by_Cons fun_upd_upd)
qed

text \<open>A prefix of a prefix is a prefix.\<close>

lemma take_prefix_trans:
  assumes "take (length c) k = c" "take (length s) c = s"
  shows "take (length s) k = s"
proof -
  have "length s \<le> length c" using assms(2) by (metis length_take min.cobounded1)
  then have "take (length s) k = take (length s) (take (length c) k)" by (simp add: min_def)
  with assms show ?thesis by simp
qed

lemma covered_pruned:
  assumes "\<not> covered s k"
  shows "covered (prune_by s c) k \<longleftrightarrow> covered c k"
proof
  assume "covered (prune_by s c) k"
  then show "covered c k" by (auto simp: covered_iff prune_by_def)
next
  assume "covered c k"
  then obtain c0 where c0: "c0 \<in> set c" "take (length c0) k = c0" by (auto simp: covered_iff)
  have "\<not> covered s c0"
  proof
    assume "covered s c0"
    then obtain s0 where "s0 \<in> set s" "take (length s0) c0 = s0" by (auto simp: covered_iff)
    with c0 take_prefix_trans have "covered s k" by (auto simp: covered_iff)
    with assms show False by simp
  qed
  with c0 show "covered (prune_by s c) k" by (auto simp: covered_iff prune_by_def)
qed

lemma prune_by_pruned: "prune_by (prune_by s c) (prune_by s xs) = prune_by (s @ c) xs"
proof -
  have "filter (\<lambda>k. \<not> covered (prune_by s c) k) (filter (\<lambda>k. \<not> covered s k) xs) =
        filter (\<lambda>k. \<not> covered (s @ c) k) xs"
    by (induction xs) (auto simp: covered_append covered_pruned)
  then show ?thesis by (simp add: prune_by_def)
qed

lemma for_below_step:
  assumes "d level = Some (PList (map PStr keys))"
    and "d below = Some (PList (map PStr xs))"
  shows "for_below level (below # rest) d =
           for_below level rest (d(below \<mapsto> PList (map PStr (prune_by keys xs))))"
proof -
  have k: "for_keys below (map PStr keys) d =
             (d(below \<mapsto> PList (map PStr (prune_by keys xs))), None)"
    by (rule for_keys_strs) (rule assms(2))
  have i: "bind (data_get d level) iterate = Inr (map PStr keys)"
    by (simp add: data_get_def bind_def assms(1))
  show ?thesis
    by (simp only: for_below.simps i k sum.case prod.case option.case)
qed

text \<open>
  Claim C3: after the de-duplication every finer level holds exactly its codes that do
  not start with a code selected at any coarser level, where "selected" means the
  selection as the caller passed it: the section selection prunes the class, subclass
  and group selections, the class selection the subclass and group selections, the
  subclass selection the group selection. The loop prunes with the already pruned
  lists; that gives the same result because a prefix of a prefix is a prefix.
\<close>

theorem dedupe_prunes_by_every_coarser_level:
  assumes "d ''cpc_section'' = Some (PList (map PStr s))"
    and "d ''cpc_class'' = Some (PList (map PStr c))"
    and "d ''cpc_subclass'' = Some (PList (map PStr sc))"
    and "d ''cpc_group'' = Some (PList (map PStr g))"
  shows "dedupe d =
           (d(''cpc_class'' \<mapsto> PList (map PStr (prune_by s c)),
              ''cpc_subclass'' \<mapsto> PList (map PStr (prune_by (s @ c) sc)),
              ''cpc_group'' \<mapsto> PList (map PStr (prune_by (s @ c @ sc) g))), None)"
proof -
  let ?c = "prune_by s c"
  let ?sc = "prune_by (s @ c) sc"
  let ?g = "prune_by (s @ c @ sc) g"
  let ?d1 = "d(''cpc_class'' \<mapsto> PList (map PStr ?c))"
  let ?d2 = "?d1(''cpc_subclass'' \<mapsto> PList (map PStr (prune_by s sc)))"
  let ?d3 = "?d2(''cpc_group'' \<mapsto> PList (map PStr (prune_by s g)))"
  let ?d4 = "?d3(''cpc_subclass'' \<mapsto> PList (map PStr (prune_by ?c (prune_by s sc))))"
  let ?d5 = "?d4(''cpc_group'' \<mapsto> PList (map PStr (prune_by ?c (prune_by s g))))"
  let ?d6 = "?d5(''cpc_group'' \<mapsto> PList (map PStr (prune_by ?sc (prune_by (s @ c) g))))"
  have "for_below ''cpc_section'' [''cpc_class'', ''cpc_subclass'', ''cpc_group''] d =
          for_below ''cpc_section'' [''cpc_subclass'', ''cpc_group''] ?d1"
    by (rule for_below_step) (rule assms)+
  also have "\<dots> = for_below ''cpc_section'' [''cpc_group''] ?d2"
    by (rule for_below_step) (simp_all add: assms)
  also have "\<dots> = for_below ''cpc_section'' [] ?d3"
    by (rule for_below_step) (simp_all add: assms)
  finally have l1:
    "for_below ''cpc_section'' [''cpc_class'', ''cpc_subclass'', ''cpc_group''] d = (?d3, None)"
    by simp
  have "for_below ''cpc_class'' [''cpc_subclass'', ''cpc_group''] ?d3 =
          for_below ''cpc_class'' [''cpc_group''] ?d4"
    by (rule for_below_step) simp_all
  also have "\<dots> = for_below ''cpc_class'' [] ?d5"
    by (rule for_below_step) simp_all
  finally have l2: "for_below ''cpc_class'' [''cpc_subclass'', ''cpc_group''] ?d3 = (?d5, None)"
    by simp
  have sc: "prune_by ?c (prune_by s sc) = ?sc" by (rule prune_by_pruned)
  have g0: "prune_by ?c (prune_by s g) = prune_by (s @ c) g" by (rule prune_by_pruned)
  have "for_below ''cpc_subclass'' [''cpc_group''] ?d5 = for_below ''cpc_subclass'' [] ?d6"
    by (rule for_below_step) (simp_all add: sc g0)
  then have l3: "for_below ''cpc_subclass'' [''cpc_group''] ?d5 = (?d6, None)"
    by simp
  have g: "prune_by ?sc (prune_by (s @ c) g) = ?g"
    using prune_by_pruned [of "s @ c" sc g] by simp
  have f4: "for_levels [''cpc_group''] ?d6 = (?d6, None)"
    by (simp only: for_levels.simps for_below.simps prod.case option.case)
  have f3: "for_levels [''cpc_subclass'', ''cpc_group''] ?d5 = (?d6, None)"
    by (subst for_levels.simps(2)) (simp only: l3 prod.case option.case f4)
  have f2: "for_levels [''cpc_class'', ''cpc_subclass'', ''cpc_group''] ?d3 = (?d6, None)"
    by (subst for_levels.simps(2)) (simp only: l2 prod.case option.case f3)
  have "dedupe d = (?d6, None)"
    unfolding dedupe_def hierarchies_def
    by (subst for_levels.simps(2)) (simp only: l1 prod.case option.case f2)
  also have "?d6 = d(''cpc_class'' \<mapsto> PList (map PStr ?c), ''cpc_subclass'' \<mapsto> PList (map PStr ?sc),
                     ''cpc_group'' \<mapsto> PList (map PStr ?g))"
    by (rule ext) (simp add: sc g g0)
  finally show ?thesis .
qed

text \<open>
  The instance of the claim: the section A prunes the group A63B71/146, and the
  predicate \<open>filter\<close> compiles constrains the section alone.
\<close>

theorem dedupe_prunes_by_every_coarser_level_witness:
  "section_group_form ''cpc_section'' = Some (PList (map PStr [''A''])) \<and>
   section_group_form ''cpc_class'' = Some (PList (map PStr [])) \<and>
   section_group_form ''cpc_subclass'' = Some (PList (map PStr [])) \<and>
   section_group_form ''cpc_group'' = Some (PList (map PStr [''A63B71/146''])) \<and>
   dedupe section_group_form =
     (section_group_form(''cpc_class'' \<mapsto> PList [], ''cpc_subclass'' \<mapsto> PList [],
                         ''cpc_group'' \<mapsto> PList []), None) \<and>
   cpc_query (fst (dedupe section_group_form)) =
     Inr (Q AND [Cond ''cpc_groups__cpc_group__group__iregex'' (PStr ''^(A)'')]) \<and>
   snd (Patent_filter section_group_form) =
     Inr \<lparr>qs_where = Q AND [Cond ''cpc_groups__cpc_group__group__iregex'' (PStr ''^(A)'')],
          qs_annotations = [], qs_order_by = []\<rparr>"
proof -
  have h1: "section_group_form ''cpc_section'' = Some (PList (map PStr [''A'']))"
    and h2: "section_group_form ''cpc_class'' = Some (PList (map PStr []))"
    and h3: "section_group_form ''cpc_subclass'' = Some (PList (map PStr []))"
    and h4: "section_group_form ''cpc_group'' = Some (PList (map PStr [''A63B71/146'']))"
    by (simp_all add: section_group_form_def empty_form_def)
  have p: "prune_by [''A''] [] = []" "prune_by ([''A''] @ []) [] = []"
    "prune_by ([''A''] @ [] @ []) [''A63B71/146''] = []"
    by (simp_all add: prune_by_def covered_def)
  have d: "dedupe section_group_form =
     (section_group_form(''cpc_class'' \<mapsto> PList [], ''cpc_subclass'' \<mapsto> PList [],
                         ''cpc_group'' \<mapsto> PList []), None)"
    using dedupe_prunes_by_every_coarser_level [OF h1 h2 h3 h4] by (simp only: p list.map)
  have q: "cpc_query (fst (dedupe section_group_form)) =
     Inr (Q AND [Cond ''cpc_groups__cpc_group__group__iregex'' (PStr ''^(A)'')])"
    by code_simp
  have f: "snd (Patent_filter section_group_form) =
     Inr \<lparr>qs_where = Q AND [Cond ''cpc_groups__cpc_group__group__iregex'' (PStr ''^(A)'')],
          qs_annotations = [], qs_order_by = []\<rparr>"
    by code_simp
  from h1 h2 h3 h4 d q f show ?thesis by (intro conjI)
qed

section \<open>A bundle without criteria (claim C2)\<close>


















section \<open>Executing a query without annotations\<close>


lemma candidates_NoJoin: "candidates NoJoin rows = [None]"
  by (simp add: candidates_def)

lemma patent_jrows_no_join: "(\<And>a. k a = NoJoin) \<Longrightarrow> patent_jrows S k p = [bare_row p]"
  by (simp add: patent_jrows_def candidates_NoJoin bare_row_def)

lemma join_kind_no_alias:
  "q_aliases (qs_where qs) = [] \<Longrightarrow> qs_annotations qs = [] \<Longrightarrow> join_kind qs a = NoJoin"
  by (simp add: join_kind_def)

lemma j_patent_jrows: "j \<in> set (patent_jrows S k p) \<Longrightarrow> j_patent j = p"
  by (auto simp: patent_jrows_def)

lemma execute_plain:
  assumes "qs_annotations qs = []" "qs_order_by qs = []"
  shows "map fst (execute E S qs) = map j_patent (matched E S qs)"
  using assms by (simp add: execute_def Let_def comp_def)

lemma map_j_patent_rows:
  "map j_patent (filter P (patent_jrows S k p)) =
     replicate (length (filter P (patent_jrows S k p))) p"
proof -
  have "map j_patent (filter P (patent_jrows S k p)) =
        map (\<lambda>j. p) (filter P (patent_jrows S k p))"
    by (rule map_cong) (auto dest: j_patent_jrows)
  then show ?thesis by (simp add: map_replicate_const)
qed

lemma map_j_patent_matched:
  "map j_patent (matched E S qs) =
     concat (map (\<lambda>p. replicate
        (length (filter (holds E (qs_where qs)) (patent_jrows S (join_kind qs) p))) p)
        (patents S))"
  by (simp add: matched_def filter_concat map_concat comp_def map_j_patent_rows)

lemma j_patent_bare_row: "j_patent (bare_row p) = p"
  by (simp add: bare_row_def)

lemma matched_no_join:
  assumes "\<And>a. k a = NoJoin"
  shows "map j_patent (filter P (concat (map (patent_jrows S k) ps))) =
           filter (\<lambda>p. P (bare_row p)) ps"
  by (induction ps) (simp_all add: patent_jrows_no_join [OF assms] j_patent_bare_row)

lemma Patent_filter_plain:
  assumes "snd (Patent_filter d) = Inr qs"
  shows "qs_annotations qs = [] \<and> qs_order_by qs = []"
  using assms
  by (auto simp: Patent_filter_def objects_filter_def bind_Inr_iff
        split: sum.splits prod.splits option.splits)





text \<open>A range with a bound of zero is a criterion, not an empty value.\<close>

lemma max_zero_is_a_criterion: "\<not> no_criteria max_zero_form"
  by code_simp


text \<open>
  Claim C4, amended: the result of \<open>filter\<close> holds a patent once for every combination
  of its related rows, one row per joined relation, that satisfies the predicate. When
  the predicate has no condition on a related table the result is the patent table
  filtered by the predicate: each satisfying patent appears exactly once.
\<close>

theorem result_row_per_matching_combination:
  assumes "snd (Patent_filter d) = Inr qs"
  shows "map fst (execute E S qs) =
           concat (map (\<lambda>p. replicate
              (length (filter (holds E (qs_where qs)) (patent_jrows S (join_kind qs) p))) p)
              (patents S)) \<and>
         (q_aliases (qs_where qs) = [] \<longrightarrow>
            map fst (execute E S qs) =
              filter (\<lambda>p. holds E (qs_where qs) (bare_row p)) (patents S))"
proof -
  from Patent_filter_plain [OF assms]
  have plain: "qs_annotations qs = []" "qs_order_by qs = []" by simp_all
  have m: "map fst (execute E S qs) = map j_patent (matched E S qs)"
    by (rule execute_plain) (rule plain)+
  have "map j_patent (matched E S qs) =
          filter (\<lambda>p. holds E (qs_where qs) (bare_row p)) (patents S)"
    if "q_aliases (qs_where qs) = []"
  proof -
    have k: "\<And>a. join_kind qs a = NoJoin"
      by (rule join_kind_no_alias) (rule that, rule plain)
    show ?thesis
      by (simp add: matched_def matched_no_join [OF k])
  qed
  with m map_j_patent_matched show ?thesis by simp
qed



text \<open>
  With the withdrawn flag set to false no relation is joined, and each of the two
  patents of the example, neither withdrawn, is returned once.
\<close>

theorem result_row_per_matching_combination_witness:
  "snd (Patent_filter not_withdrawn_form) =
     Inr \<lparr>qs_where = Q AND [Cond ''withdrawn'' (PBool False)], qs_annotations = [],
          qs_order_by = []\<rparr> \<and>
   q_aliases (Q AND [Cond ''withdrawn'' (PBool False)]) = [] \<and>
   map (\<lambda>r. patent_id (fst r))
     (execute example_engine example_store
        \<lparr>qs_where = Q AND [Cond ''withdrawn'' (PBool False)], qs_annotations = [],
         qs_order_by = []\<rparr>) = [7, 3]"
proof -
  let ?w = "Q AND [Cond ''withdrawn'' (PBool False)]"
  let ?qs = "\<lparr>qs_where = ?w, qs_annotations = [], qs_order_by = []\<rparr>"
  have h: "snd (Patent_filter not_withdrawn_form) = Inr ?qs" by code_simp
  have a: "q_aliases ?w = []" by code_simp
  have f: "map patent_id (filter (\<lambda>p. holds example_engine ?w (bare_row p))
              (patents example_store)) = [7, 3]"
    by code_simp
  note t = result_row_per_matching_combination [OF h, of example_engine example_store]
  from t have imp: "q_aliases (qs_where ?qs) = [] \<longrightarrow>
      map fst (execute example_engine example_store ?qs) =
        filter (\<lambda>p. holds example_engine (qs_where ?qs) (bare_row p)) (patents example_store)"
    by (rule conjunct2)
  have a': "q_aliases (qs_where ?qs) = []"
    by (simp only: queryset.select_convs a)
  from imp a' have "map fst (execute example_engine example_store ?qs) =
        filter (\<lambda>p. holds example_engine (qs_where ?qs) (bare_row p)) (patents example_store)"
    by (rule mp)
  then have e: "map fst (execute example_engine example_store ?qs) =
          filter (\<lambda>p. holds example_engine ?w (bare_row p)) (patents example_store)"
    by (simp only: queryset.select_convs)
  have "map (\<lambda>r. patent_id (fst r)) (execute example_engine example_store ?qs) =
          map patent_id (map fst (execute example_engine example_store ?qs))"
    by (simp add: comp_def)
  also have "\<dots> = [7, 3]" by (simp only: e f)
  finally show ?thesis using h a by (intro conjI) simp_all
qed

text \<open>
  Claim C4 as stated fails: patent 7 has two inventors named Smith; filtering by that
  last name joins the inventors, nothing removes duplicates, and the patent is returned
  twice.
\<close>

theorem two_matching_inventors_give_two_rows:
  "(case snd (Patent_filter smith_form) of
      Inl e \<Rightarrow> []
    | Inr qs \<Rightarrow> map (\<lambda>r. patent_id (fst r)) (execute example_engine example_store qs)) =
   [7, 7]"
  by code_simp

section \<open>The conditions of the compiled predicate\<close>

lemma subset_step: "X \<subseteq> Y \<union> Z \<Longrightarrow> Y \<subseteq> A \<Longrightarrow> X \<subseteq> Z \<union> A"
  by blast

lemma lookup_values_and_q:
  "lookup_values fld (and_q a b) = lookup_values fld a @ lookup_values fld b"
  by (simp add: lookup_values_def leaves_and_q)

lemma lookup_values_or_q:
  "lookup_values fld (or_q a b) = lookup_values fld a @ lookup_values fld b"
  by (simp add: lookup_values_def leaves_or_q)

lemma lookup_values_Q_kw: "lookup_values fld (Q_kw f v) = (if f = fld then [v] else [])"
  by (simp add: lookup_values_def leaves_Q_kw)

lemma lookup_values_Q_empty: "lookup_values fld Q_empty = []"
  by (simp add: lookup_values_def leaves_Q_empty)

lemma lookup_values_Nil_iff: "lookup_values fld q = [] \<longleftrightarrow> fld \<notin> fields q"
  by (auto simp: lookup_values_def fields_def filter_empty_conv image_iff)

lemma fields_and_q: "fields (and_q a b) = fields a \<union> fields b"
  by (auto simp: fields_def leaves_and_q)

lemma fields_or_q: "fields (or_q a b) = fields a \<union> fields b"
  by (auto simp: fields_def leaves_or_q)

lemma fields_Q_kw: "fields (Q_kw f v) = {f}"
  by (simp add: fields_def leaves_Q_kw)

lemma fields_Q_empty: "fields Q_empty = {}"
  by (simp add: fields_def leaves_Q_empty)

lemma fields_exact_query: "fields (exact_query f v) \<subseteq> {f}"
  by (simp add: exact_query_def fields_Q_kw fields_Q_empty)

lemma fields_range_query:
  "range_query f v = Inr r \<Longrightarrow> fields r \<subseteq> {f @ ''__gte'', f @ ''__lte''}"
  by (auto simp: range_query_def bind_Inr_iff Let_def fields_and_q fields_Q_kw fields_Q_empty
        split: if_splits)

text \<open>What each step of the construction adds.\<close>

lemma and_exact_fields:
  "and_exact d f k q = Inr q' \<Longrightarrow> fields q' \<subseteq> fields q \<union> {f}"
  by (auto simp: and_exact_def bind_Inr_iff fields_and_q exact_query_def fields_Q_kw
        fields_Q_empty split: if_splits)

lemma and_range_fields:
  "and_range d f k q = Inr q' \<Longrightarrow> fields q' \<subseteq> fields q \<union> {f @ ''__gte'', f @ ''__lte''}"
  by (auto simp: and_range_def bind_Inr_iff fields_and_q dest!: fields_range_query)

lemma and_not_none_fields:
  "and_not_none d f k q = Inr q' \<Longrightarrow> fields q' \<subseteq> fields q \<union> {f}"
  by (auto simp: and_not_none_def bind_Inr_iff fields_and_q fields_Q_kw split: if_splits)

lemma and_regex_join_fields:
  "and_regex_join d sep f k q = Inr q' \<Longrightarrow> fields q' \<subseteq> fields q \<union> {f}"
  by (auto simp: and_regex_join_def bind_Inr_iff fields_and_q fields_Q_kw split: if_splits)

lemma and_if_truthy_fields:
  "and_if_truthy d f k q = Inr q' \<Longrightarrow> fields q' \<subseteq> fields q \<union> {f}"
  by (auto simp: and_if_truthy_def bind_Inr_iff fields_and_q fields_Q_kw split: if_splits)

lemma and_location_fields:
  "and_location d f k q = Inr q' \<Longrightarrow> fields q' \<subseteq> fields q \<union> {f}"
  by (auto simp: and_location_def bind_Inr_iff fields_and_q fields_Q_kw split: if_splits)

lemma and_exact_holds: "and_exact d f k q = Inr q' \<Longrightarrow> holds E q' j \<Longrightarrow> holds E q j"
  by (auto simp: and_exact_def bind_Inr_iff holds_and_q)

lemma and_range_holds: "and_range d f k q = Inr q' \<Longrightarrow> holds E q' j \<Longrightarrow> holds E q j"
  by (auto simp: and_range_def bind_Inr_iff holds_and_q)

lemma and_not_none_holds: "and_not_none d f k q = Inr q' \<Longrightarrow> holds E q' j \<Longrightarrow> holds E q j"
  by (auto simp: and_not_none_def bind_Inr_iff holds_and_q split: if_splits)

lemma and_regex_join_holds:
  "and_regex_join d sep f k q = Inr q' \<Longrightarrow> holds E q' j \<Longrightarrow> holds E q j"
  by (auto simp: and_regex_join_def bind_Inr_iff holds_and_q split: if_splits)

lemma and_if_truthy_holds: "and_if_truthy d f k q = Inr q' \<Longrightarrow> holds E q' j \<Longrightarrow> holds E q j"
  by (auto simp: and_if_truthy_def bind_Inr_iff holds_and_q split: if_splits)

lemma and_location_holds: "and_location d f k q = Inr q' \<Longrightarrow> holds E q' j \<Longrightarrow> holds E q j"
  by (auto simp: and_location_def bind_Inr_iff holds_and_q split: if_splits)

text \<open>The tri-state step on its own lookup.\<close>

lemma and_not_none_values:
  assumes "and_not_none d f k q = Inr q'" "d k = Some v"
  shows "lookup_values f q' = lookup_values f q @ (if v = PNone then [] else [v])"
  using assms
  by (auto simp: and_not_none_def bind_Inr_iff data_get_Inr_iff lookup_values_and_q
        lookup_values_Q_kw)

lemma and_not_none_holds_value:
  assumes "and_not_none d f k q = Inr q'" "d k = Some v" "v \<noteq> PNone" "holds E q' j"
  shows "holds E (Cond f v) j"
  using assms
  by (auto simp: and_not_none_def bind_Inr_iff data_get_Inr_iff holds_and_q holds_Q_kw)

text \<open>The first-name step on its own lookup.\<close>

lemma intercalate_Nil: "intercalate [] ss = concat ss"
  by (induction "[] :: string" ss rule: intercalate.induct) simp_all

lemma as_strs_map_PStr: "as_strs (map PStr ns) = Inr ns"
  by (induction ns) (simp_all add: bind_def)

lemma str_join_strs: "str_join sep (PList (map PStr ns)) = Inr (intercalate sep ns)"
  by (simp add: str_join_def bind_def as_strs_map_PStr)

lemma and_regex_join_values:
  assumes "and_regex_join d [] f k q = Inr q'" "d k = Some (PList (map PStr ns))" "ns \<noteq> []"
  shows "q' = and_q q (Q_kw f (PStr (''^('' @ concat ns @ '')'')))"
  using assms
  by (auto simp: and_regex_join_def bind_Inr_iff data_get_Inr_iff str_join_strs intercalate_Nil)


text \<open>The conditions the examined lookups compile to.\<close>

lemma holds_withdrawn:
  "holds E (Cond ''withdrawn'' (PBool b)) j \<longleftrightarrow> Some (withdrawn (j_patent j)) = Some b"
  by (simp add: compile_leaf_def column_def patent_names_def lookup_pred_def)

lemma holds_pct_granted:
  "holds E (Cond ''pct_data__granted'' (PBool b)) j \<longleftrightarrow> map_option granted (j_pct j) = Some b"
  by (simp add: compile_leaf_def column_def patent_names_def lookup_pred_def)

lemma holds_inventors_male:
  "holds E (Cond ''inventors__male'' (PBool b)) j \<longleftrightarrow> Option.bind (j_inventor j) male = Some b"
  by (simp add: compile_leaf_def column_def patent_names_def lookup_pred_def)

lemma holds_inventors_first_name:
  "holds E (Cond ''inventors__first_name__iregex'' (PStr r)) j \<longleftrightarrow>
     (\<exists>t. Option.bind (j_inventor j) inventor_first_name = Some t \<and> iregex E r t)"
  by (simp add: compile_leaf_def column_def patent_names_def lookup_pred_def
        split: option.splits)

lemma holds_assignees_first_name:
  "holds E (Cond ''assignees__first_name__iregex'' (PStr r)) j \<longleftrightarrow>
     (\<exists>t. Option.bind (j_assignee j) assignee_first_name = Some t \<and> iregex E r t)"
  by (simp add: compile_leaf_def column_def patent_names_def lookup_pred_def
        split: option.splits)

text \<open>The fragments, step by step.\<close>

lemma patent_query_steps:
  assumes "patent_query d = Inr q"
  obtains kw ofc q1 q2 q3 q4 q5 q6 q7 kws where
    "d ''patent_office'' = Some ofc"
    "and_exact d ''type'' ''patent_type'' (exact_query ''office'' ofc) = Inr q1"
    "and_range d ''application_filed_date'' ''patent_application_filed_date'' q1 = Inr q2"
    "and_range d ''granted_date'' ''patent_granted_date'' q2 = Inr q3"
    "and_range d ''figures_count'' ''patent_figures_count'' q3 = Inr q4"
    "and_range d ''claims_count'' ''patent_claims_count'' q4 = Inr q5"
    "and_range d ''sheets_count'' ''patent_sheets_count'' q5 = Inr q6"
    "and_not_none d ''withdrawn'' ''patent_withdrawn'' q6 = Inr q7"
    "d ''patent_keywords'' = Some kws"
    "q = (if truthy kws
          then and_q q7 (or_q (Q_kw ''title__iregex'' (PStr (''('' @ kw @ '')'')))
                              (Q_kw ''abstract__iregex'' (PStr (''('' @ kw @ '')''))))
          else q7)"
  using assms unfolding patent_query_def bind_Inr_iff data_get_Inr_iff
  by (elim exE conjE) (simp only: sum.inject, blast)

lemma patent_query_before_withdrawn:
  assumes "d ''patent_office'' = Some ofc"
    "and_exact d ''type'' ''patent_type'' (exact_query ''office'' ofc) = Inr q1"
    "and_range d ''application_filed_date'' ''patent_application_filed_date'' q1 = Inr q2"
    "and_range d ''granted_date'' ''patent_granted_date'' q2 = Inr q3"
    "and_range d ''figures_count'' ''patent_figures_count'' q3 = Inr q4"
    "and_range d ''claims_count'' ''patent_claims_count'' q4 = Inr q5"
    "and_range d ''sheets_count'' ''patent_sheets_count'' q5 = Inr q6"
  shows "fields q6 \<subseteq>
     {''sheets_count'' @ ''__gte'', ''sheets_count'' @ ''__lte''} \<union>
     ({''claims_count'' @ ''__gte'', ''claims_count'' @ ''__lte''} \<union>
      ({''figures_count'' @ ''__gte'', ''figures_count'' @ ''__lte''} \<union>
       ({''granted_date'' @ ''__gte'', ''granted_date'' @ ''__lte''} \<union>
        ({''application_filed_date'' @ ''__gte'', ''application_filed_date'' @ ''__lte''} \<union>
         ({''type''} \<union> {''office''})))))"
proof -
  note s1 = subset_step [OF and_exact_fields [OF assms(2)] fields_exact_query]
  note s2 = subset_step [OF and_range_fields [OF assms(3)] s1]
  note s3 = subset_step [OF and_range_fields [OF assms(4)] s2]
  note s4 = subset_step [OF and_range_fields [OF assms(5)] s3]
  note s5 = subset_step [OF and_range_fields [OF assms(6)] s4]
  show ?thesis by (rule subset_step [OF and_range_fields [OF assms(7)] s5])
qed

lemma patent_query_fields:
  assumes "patent_query d = Inr q"
  shows "fields q \<subseteq> set patent_lookups"
proof -
  from assms obtain kw ofc q1 q2 q3 q4 q5 q6 q7 kws where st:
    "d ''patent_office'' = Some ofc"
    "and_exact d ''type'' ''patent_type'' (exact_query ''office'' ofc) = Inr q1"
    "and_range d ''application_filed_date'' ''patent_application_filed_date'' q1 = Inr q2"
    "and_range d ''granted_date'' ''patent_granted_date'' q2 = Inr q3"
    "and_range d ''figures_count'' ''patent_figures_count'' q3 = Inr q4"
    "and_range d ''claims_count'' ''patent_claims_count'' q4 = Inr q5"
    "and_range d ''sheets_count'' ''patent_sheets_count'' q5 = Inr q6"
    and w: "and_not_none d ''withdrawn'' ''patent_withdrawn'' q6 = Inr q7"
    and q: "q = (if truthy kws
          then and_q q7 (or_q (Q_kw ''title__iregex'' (PStr (''('' @ kw @ '')'')))
                              (Q_kw ''abstract__iregex'' (PStr (''('' @ kw @ '')''))))
          else q7)"
    by (rule patent_query_steps)
  note b = patent_query_before_withdrawn [OF st]
  note s7 = subset_step [OF and_not_none_fields [OF w] b]
  have "fields q \<subseteq> fields q7 \<union> {''title__iregex'', ''abstract__iregex''}"
    by (auto simp: q fields_and_q fields_or_q fields_Q_kw)
  note s8 = subset_step [OF this s7]
  have "{''title__iregex'', ''abstract__iregex''} \<union>
     ({''withdrawn''} \<union>
     ({''sheets_count'' @ ''__gte'', ''sheets_count'' @ ''__lte''} \<union>
     ({''claims_count'' @ ''__gte'', ''claims_count'' @ ''__lte''} \<union>
      ({''figures_count'' @ ''__gte'', ''figures_count'' @ ''__lte''} \<union>
       ({''granted_date'' @ ''__gte'', ''granted_date'' @ ''__lte''} \<union>
        ({''application_filed_date'' @ ''__gte'', ''application_filed_date'' @ ''__lte''} \<union>
         ({''type''} \<union> {''office''}))))))) \<subseteq> set patent_lookups"
    by (simp add: patent_lookups_def)
  with s8 show ?thesis by (rule subset_trans)
qed

lemma patent_query_withdrawn:
  assumes "patent_query d = Inr q" "d ''patent_withdrawn'' = Some v"
  shows "lookup_values ''withdrawn'' q = (if v = PNone then [] else [v])"
    and "v \<noteq> PNone \<Longrightarrow> holds E q j \<Longrightarrow> holds E (Cond ''withdrawn'' v) j"
proof -
  from assms(1) obtain kw ofc q1 q2 q3 q4 q5 q6 q7 kws where st:
    "d ''patent_office'' = Some ofc"
    "and_exact d ''type'' ''patent_type'' (exact_query ''office'' ofc) = Inr q1"
    "and_range d ''application_filed_date'' ''patent_application_filed_date'' q1 = Inr q2"
    "and_range d ''granted_date'' ''patent_granted_date'' q2 = Inr q3"
    "and_range d ''figures_count'' ''patent_figures_count'' q3 = Inr q4"
    "and_range d ''claims_count'' ''patent_claims_count'' q4 = Inr q5"
    "and_range d ''sheets_count'' ''patent_sheets_count'' q5 = Inr q6"
    and w: "and_not_none d ''withdrawn'' ''patent_withdrawn'' q6 = Inr q7"
    and q: "q = (if truthy kws
          then and_q q7 (or_q (Q_kw ''title__iregex'' (PStr (''('' @ kw @ '')'')))
                              (Q_kw ''abstract__iregex'' (PStr (''('' @ kw @ '')''))))
          else q7)"
    by (rule patent_query_steps)
  have "''withdrawn'' \<notin>
     {''sheets_count'' @ ''__gte'', ''sheets_count'' @ ''__lte''} \<union>
     ({''claims_count'' @ ''__gte'', ''claims_count'' @ ''__lte''} \<union>
      ({''figures_count'' @ ''__gte'', ''figures_count'' @ ''__lte''} \<union>
       ({''granted_date'' @ ''__gte'', ''granted_date'' @ ''__lte''} \<union>
        ({''application_filed_date'' @ ''__gte'', ''application_filed_date'' @ ''__lte''} \<union>
         ({''type''} \<union> {''office''})))))"
    by simp
  with patent_query_before_withdrawn [OF st] have "''withdrawn'' \<notin> fields q6" by (rule contra_subsetD)
  then have "lookup_values ''withdrawn'' q6 = []" by (simp add: lookup_values_Nil_iff)
  with and_not_none_values [OF w assms(2)]
  have "lookup_values ''withdrawn'' q7 = (if v = PNone then [] else [v])" by simp
  moreover have "lookup_values ''withdrawn'' q = lookup_values ''withdrawn'' q7"
    by (simp add: q lookup_values_and_q lookup_values_or_q lookup_values_Q_kw)
  ultimately show "lookup_values ''withdrawn'' q = (if v = PNone then [] else [v])" by simp
  show "holds E (Cond ''withdrawn'' v) j" if "v \<noteq> PNone" "holds E q j"
  proof -
    from that(2) have "holds E q7 j" by (simp add: q holds_and_q split: if_splits)
    with and_not_none_holds_value [OF w assms(2) that(1)] show ?thesis .
  qed
qed


text \<open>Steps that leave the values of another lookup alone.\<close>

lemma values_of_other:
  assumes "leaves q' = leaves q @ r" "fst ` set r \<subseteq> {f}" "f \<noteq> fld"
  shows "lookup_values fld q' = lookup_values fld q"
proof -
  from assms(2,3) have "filter (\<lambda>kv. fst kv = fld) r = []"
    by (auto simp: filter_empty_conv)
  with assms(1) show ?thesis by (simp add: lookup_values_def)
qed

lemma and_not_none_leaves:
  "and_not_none d f k q = Inr q' \<Longrightarrow> \<exists>r. leaves q' = leaves q @ r \<and> fst ` set r \<subseteq> {f}"
  by (auto simp: and_not_none_def bind_Inr_iff leaves_and_q leaves_Q_kw split: if_splits)

lemma and_if_truthy_leaves:
  "and_if_truthy d f k q = Inr q' \<Longrightarrow> \<exists>r. leaves q' = leaves q @ r \<and> fst ` set r \<subseteq> {f}"
  by (auto simp: and_if_truthy_def bind_Inr_iff leaves_and_q leaves_Q_kw split: if_splits)

lemma and_location_leaves:
  "and_location d f k q = Inr q' \<Longrightarrow> \<exists>r. leaves q' = leaves q @ r \<and> fst ` set r \<subseteq> {f}"
  by (auto simp: and_location_def bind_Inr_iff leaves_and_q leaves_Q_kw split: if_splits)

lemma and_not_none_other:
  assumes "and_not_none d f k q = Inr q'" "f \<noteq> fld"
  shows "lookup_values fld q' = lookup_values fld q"
  using and_not_none_leaves [OF assms(1)] values_of_other assms(2) by blast

lemma and_if_truthy_other:
  assumes "and_if_truthy d f k q = Inr q'" "f \<noteq> fld"
  shows "lookup_values fld q' = lookup_values fld q"
  using and_if_truthy_leaves [OF assms(1)] values_of_other assms(2) by blast

lemma and_location_other:
  assumes "and_location d f k q = Inr q'" "f \<noteq> fld"
  shows "lookup_values fld q' = lookup_values fld q"
  using and_location_leaves [OF assms(1)] values_of_other assms(2) by blast

text \<open>The PCT fragment.\<close>

lemma pct_query_steps:
  assumes "pct_query d = Inr q"
  obtains v q1 where
    "range_query ''pct_data__published_or_filed_date'' v = Inr q1"
    "and_not_none d ''pct_data__granted'' ''pct_granted'' q1 = Inr q"
  using assms unfolding pct_query_def bind_Inr_iff by blast

lemma pct_query_fields:
  assumes "pct_query d = Inr q"
  shows "fields q \<subseteq> set pct_lookups"
proof -
  from assms obtain v q1 where st:
    "range_query ''pct_data__published_or_filed_date'' v = Inr q1"
    "and_not_none d ''pct_data__granted'' ''pct_granted'' q1 = Inr q"
    by (rule pct_query_steps)
  note s = subset_step [OF and_not_none_fields [OF st(2)] fields_range_query [OF st(1)]]
  have "{''pct_data__granted''} \<union>
        {''pct_data__published_or_filed_date'' @ ''__gte'',
         ''pct_data__published_or_filed_date'' @ ''__lte''} \<subseteq> set pct_lookups"
    by (simp add: pct_lookups_def)
  with s show ?thesis by (rule subset_trans)
qed

lemma pct_query_granted:
  assumes "pct_query d = Inr q" "d ''pct_granted'' = Some v"
  shows "lookup_values ''pct_data__granted'' q = (if v = PNone then [] else [v])"
    and "v \<noteq> PNone \<Longrightarrow> holds E q j \<Longrightarrow> holds E (Cond ''pct_data__granted'' v) j"
proof -
  from assms(1) obtain w q1 where st:
    "range_query ''pct_data__published_or_filed_date'' w = Inr q1"
    "and_not_none d ''pct_data__granted'' ''pct_granted'' q1 = Inr q"
    by (rule pct_query_steps)
  have "''pct_data__granted'' \<notin> {''pct_data__published_or_filed_date'' @ ''__gte'',
         ''pct_data__published_or_filed_date'' @ ''__lte''}"
    by simp
  with fields_range_query [OF st(1)] have "''pct_data__granted'' \<notin> fields q1"
    by (rule contra_subsetD)
  then have "lookup_values ''pct_data__granted'' q1 = []" by (simp add: lookup_values_Nil_iff)
  with and_not_none_values [OF st(2) assms(2)]
  show "lookup_values ''pct_data__granted'' q = (if v = PNone then [] else [v])" by simp
  show "holds E (Cond ''pct_data__granted'' v) j" if "v \<noteq> PNone" "holds E q j"
    by (rule and_not_none_holds_value [OF st(2) assms(2) that])
qed

text \<open>The inventor fragment.\<close>

lemma inventor_query_steps:
  assumes "inventor_query d = Inr q"
  obtains q1 q2 q3 where
    "and_regex_join d [] ''inventors__first_name__iregex'' ''inventor_first_name'' Q_empty = Inr q1"
    "and_if_truthy d ''inventors__last_name__in'' ''inventor_last_name'' q1 = Inr q2"
    "and_not_none d ''inventors__male'' ''inventor_male'' q2 = Inr q3"
    "and_location d ''inventors__location__point__distance_lte'' ''inventor_location'' q3 = Inr q"
  using assms unfolding inventor_query_def bind_Inr_iff by blast

lemma fields_Q_empty_subset: "fields Q_empty \<subseteq> {}"
  by (simp add: fields_Q_empty)

lemma inventor_query_fields:
  assumes "inventor_query d = Inr q"
  shows "fields q \<subseteq> set inventor_lookups"
proof -
  from assms obtain q1 q2 q3 where st:
    "and_regex_join d [] ''inventors__first_name__iregex'' ''inventor_first_name'' Q_empty = Inr q1"
    "and_if_truthy d ''inventors__last_name__in'' ''inventor_last_name'' q1 = Inr q2"
    "and_not_none d ''inventors__male'' ''inventor_male'' q2 = Inr q3"
    "and_location d ''inventors__location__point__distance_lte'' ''inventor_location'' q3 = Inr q"
    by (rule inventor_query_steps)
  note s1 = subset_step [OF and_regex_join_fields [OF st(1)] fields_Q_empty_subset]
  note s2 = subset_step [OF and_if_truthy_fields [OF st(2)] s1]
  note s3 = subset_step [OF and_not_none_fields [OF st(3)] s2]
  note s4 = subset_step [OF and_location_fields [OF st(4)] s3]
  have "{''inventors__location__point__distance_lte''} \<union>
        ({''inventors__male''} \<union>
         ({''inventors__last_name__in''} \<union> ({''inventors__first_name__iregex''} \<union> {}))) \<subseteq>
        set inventor_lookups"
    by (simp add: inventor_lookups_def)
  with s4 show ?thesis by (rule subset_trans)
qed

lemma inventor_query_male:
  assumes "inventor_query d = Inr q" "d ''inventor_male'' = Some v"
  shows "lookup_values ''inventors__male'' q = (if v = PNone then [] else [v])"
    and "v \<noteq> PNone \<Longrightarrow> holds E q j \<Longrightarrow> holds E (Cond ''inventors__male'' v) j"
proof -
  from assms(1) obtain q1 q2 q3 where st:
    "and_regex_join d [] ''inventors__first_name__iregex'' ''inventor_first_name'' Q_empty = Inr q1"
    "and_if_truthy d ''inventors__last_name__in'' ''inventor_last_name'' q1 = Inr q2"
    "and_not_none d ''inventors__male'' ''inventor_male'' q2 = Inr q3"
    "and_location d ''inventors__location__point__distance_lte'' ''inventor_location'' q3 = Inr q"
    by (rule inventor_query_steps)
  note s1 = subset_step [OF and_regex_join_fields [OF st(1)] fields_Q_empty_subset]
  note s2 = subset_step [OF and_if_truthy_fields [OF st(2)] s1]
  have "''inventors__male'' \<notin>
          {''inventors__last_name__in''} \<union> ({''inventors__first_name__iregex''} \<union> {})"
    by simp
  with s2 have "''inventors__male'' \<notin> fields q2" by (rule contra_subsetD)
  then have "lookup_values ''inventors__male'' q2 = []" by (simp add: lookup_values_Nil_iff)
  with and_not_none_values [OF st(3) assms(2)]
  have "lookup_values ''inventors__male'' q3 = (if v = PNone then [] else [v])" by simp
  moreover have "lookup_values ''inventors__male'' q = lookup_values ''inventors__male'' q3"
    by (rule and_location_other [OF st(4)]) simp
  ultimately show "lookup_values ''inventors__male'' q = (if v = PNone then [] else [v])"
    by simp
  show "holds E (Cond ''inventors__male'' v) j" if "v \<noteq> PNone" "holds E q j"
  proof -
    from and_location_holds [OF st(4) that(2)] have "holds E q3 j" .
    with and_not_none_holds_value [OF st(3) assms(2) that(1)] show ?thesis .
  qed
qed

lemma inventor_query_first_name:
  assumes "inventor_query d = Inr q" "d ''inventor_first_name'' = Some (PList (map PStr ns))"
    "ns \<noteq> []"
  shows "lookup_values ''inventors__first_name__iregex'' q = [PStr (''^('' @ concat ns @ '')'')]"
    and "holds E q j \<Longrightarrow>
           holds E (Cond ''inventors__first_name__iregex'' (PStr (''^('' @ concat ns @ '')''))) j"
proof -
  let ?f = "''inventors__first_name__iregex''"
  let ?p = "PStr (''^('' @ concat ns @ '')'')"
  from assms(1) obtain q1 q2 q3 where st:
    "and_regex_join d [] ?f ''inventor_first_name'' Q_empty = Inr q1"
    "and_if_truthy d ''inventors__last_name__in'' ''inventor_last_name'' q1 = Inr q2"
    "and_not_none d ''inventors__male'' ''inventor_male'' q2 = Inr q3"
    "and_location d ''inventors__location__point__distance_lte'' ''inventor_location'' q3 = Inr q"
    by (rule inventor_query_steps)
  have q1: "q1 = and_q Q_empty (Q_kw ?f ?p)"
    by (rule and_regex_join_values [OF st(1) assms(2,3)])
  have "lookup_values ?f q = lookup_values ?f q3"
    by (rule and_location_other [OF st(4)]) simp
  also have "\<dots> = lookup_values ?f q2"
    by (rule and_not_none_other [OF st(3)]) simp
  also have "\<dots> = lookup_values ?f q1"
    by (rule and_if_truthy_other [OF st(2)]) simp
  also have "\<dots> = [?p]"
    by (simp add: q1 lookup_values_and_q lookup_values_Q_kw lookup_values_Q_empty)
  finally show "lookup_values ?f q = [?p]" .
  show "holds E (Cond ?f ?p) j" if "holds E q j"
  proof -
    from and_location_holds [OF st(4) that] have "holds E q3 j" .
    from and_not_none_holds [OF st(3) this] have "holds E q2 j" .
    from and_if_truthy_holds [OF st(2) this] have "holds E q1 j" .
    then show ?thesis by (simp add: q1 holds_and_q holds_Q_kw del: holds.simps)
  qed
qed

text \<open>The assignee fragment.\<close>

lemma assignee_query_steps:
  assumes "assignee_query d = Inr q"
  obtains q1 q2 q3 where
    "and_regex_join d [] ''assignees__first_name__iregex'' ''assignee_first_name'' Q_empty = Inr q1"
    "and_if_truthy d ''assignees__last_name__in'' ''assignee_last_name'' q1 = Inr q2"
    "and_if_truthy d ''assignees__organization__in'' ''assignee_organization'' q2 = Inr q3"
    "and_location d ''assignees__location__point__distance_lte'' ''assignee_location'' q3 = Inr q"
  using assms unfolding assignee_query_def bind_Inr_iff by blast

lemma assignee_query_fields:
  assumes "assignee_query d = Inr q"
  shows "fields q \<subseteq> set assignee_lookups"
proof -
  from assms obtain q1 q2 q3 where st:
    "and_regex_join d [] ''assignees__first_name__iregex'' ''assignee_first_name'' Q_empty = Inr q1"
    "and_if_truthy d ''assignees__last_name__in'' ''assignee_last_name'' q1 = Inr q2"
    "and_if_truthy d ''assignees__organization__in'' ''assignee_organization'' q2 = Inr q3"
    "and_location d ''assignees__location__point__distance_lte'' ''assignee_location'' q3 = Inr q"
    by (rule assignee_query_steps)
  note s1 = subset_step [OF and_regex_join_fields [OF st(1)] fields_Q_empty_subset]
  note s2 = subset_step [OF and_if_truthy_fields [OF st(2)] s1]
  note s3 = subset_step [OF and_if_truthy_fields [OF st(3)] s2]
  note s4 = subset_step [OF and_location_fields [OF st(4)] s3]
  have "{''assignees__location__point__distance_lte''} \<union>
        ({''assignees__organization__in''} \<union>
         ({''assignees__last_name__in''} \<union> ({''assignees__first_name__iregex''} \<union> {}))) \<subseteq>
        set assignee_lookups"
    by (simp add: assignee_lookups_def)
  with s4 show ?thesis by (rule subset_trans)
qed

lemma assignee_query_first_name:
  assumes "assignee_query d = Inr q" "d ''assignee_first_name'' = Some (PList (map PStr ns))"
    "ns \<noteq> []"
  shows "lookup_values ''assignees__first_name__iregex'' q = [PStr (''^('' @ concat ns @ '')'')]"
    and "holds E q j \<Longrightarrow>
           holds E (Cond ''assignees__first_name__iregex'' (PStr (''^('' @ concat ns @ '')''))) j"
proof -
  let ?f = "''assignees__first_name__iregex''"
  let ?p = "PStr (''^('' @ concat ns @ '')'')"
  from assms(1) obtain q1 q2 q3 where st:
    "and_regex_join d [] ?f ''assignee_first_name'' Q_empty = Inr q1"
    "and_if_truthy d ''assignees__last_name__in'' ''assignee_last_name'' q1 = Inr q2"
    "and_if_truthy d ''assignees__organization__in'' ''assignee_organization'' q2 = Inr q3"
    "and_location d ''assignees__location__point__distance_lte'' ''assignee_location'' q3 = Inr q"
    by (rule assignee_query_steps)
  have q1: "q1 = and_q Q_empty (Q_kw ?f ?p)"
    by (rule and_regex_join_values [OF st(1) assms(2,3)])
  have "lookup_values ?f q = lookup_values ?f q3"
    by (rule and_location_other [OF st(4)]) simp
  also have "\<dots> = lookup_values ?f q2"
    by (rule and_if_truthy_other [OF st(3)]) simp
  also have "\<dots> = lookup_values ?f q1"
    by (rule and_if_truthy_other [OF st(2)]) simp
  also have "\<dots> = [?p]"
    by (simp add: q1 lookup_values_and_q lookup_values_Q_kw lookup_values_Q_empty)
  finally show "lookup_values ?f q = [?p]" .
  show "holds E (Cond ?f ?p) j" if "holds E q j"
  proof -
    from and_location_holds [OF st(4) that] have "holds E q3 j" .
    from and_if_truthy_holds [OF st(3) this] have "holds E q2 j" .
    from and_if_truthy_holds [OF st(2) this] have "holds E q1 j" .
    then show ?thesis by (simp add: q1 holds_and_q holds_Q_kw del: holds.simps)
  qed
qed

text \<open>The classification fragment.\<close>

lemma cpc_query_fields:
  assumes "cpc_query d = Inr q"
  shows "fields q \<subseteq> set cpc_lookups"
proof -
  from assms obtain q1 q2 q3 where st:
    "and_regex_join d ''|'' ''cpc_groups__cpc_group__group__iregex'' ''cpc_section'' Q_empty = Inr q1"
    "and_regex_join d ''|'' ''cpc_groups__cpc_group__group__iregex'' ''cpc_class'' q1 = Inr q2"
    "and_regex_join d ''|'' ''cpc_groups__cpc_group__group__iregex'' ''cpc_subclass'' q2 = Inr q3"
    "and_if_truthy d ''cpc_groups__cpc_group__in'' ''cpc_group'' q3 = Inr q"
    unfolding cpc_query_def bind_Inr_iff by blast
  note s1 = subset_step [OF and_regex_join_fields [OF st(1)] fields_Q_empty_subset]
  note s2 = subset_step [OF and_regex_join_fields [OF st(2)] s1]
  note s3 = subset_step [OF and_regex_join_fields [OF st(3)] s2]
  note s4 = subset_step [OF and_if_truthy_fields [OF st(4)] s3]
  have "{''cpc_groups__cpc_group__in''} \<union>
        ({''cpc_groups__cpc_group__group__iregex''} \<union>
         ({''cpc_groups__cpc_group__group__iregex''} \<union>
          ({''cpc_groups__cpc_group__group__iregex''} \<union> {}))) \<subseteq> set cpc_lookups"
    by (simp add: cpc_lookups_def)
  with s4 show ?thesis by (rule subset_trans)
qed

text \<open>The whole predicate.\<close>

lemma Patent_filter_InrE:
  assumes "snd (Patent_filter d) = Inr qs"
  obtains pq cq tq iq aq where
    "patent_query d = Inr pq" "cpc_query (fst (dedupe d)) = Inr cq"
    "pct_query (fst (dedupe d)) = Inr tq" "inventor_query (fst (dedupe d)) = Inr iq"
    "assignee_query (fst (dedupe d)) = Inr aq"
    "qs_where qs = and_q (and_q (and_q (and_q pq cq) tq) iq) aq"
    "check (qs_where qs) = None"
proof -
  from assms obtain pq where pq: "patent_query d = Inr pq"
    by (cases "patent_query d") (simp_all add: Patent_filter_def)
  obtain d' r where dd: "dedupe d = (d', r)" by (cases "dedupe d")
  with assms pq have r: "r = None" by (cases r) (simp_all add: Patent_filter_def)
  from assms pq dd r have "bind (related_query d' pq) objects_filter = Inr qs"
    by (simp add: Patent_filter_def)
  then obtain q where q: "related_query d' pq = Inr q" "objects_filter q = Inr qs"
    unfolding bind_Inr_iff by blast
  from q(2) have w: "qs_where qs = q" "check q = None"
    by (auto simp: objects_filter_def split: option.splits)
  from q(1) obtain cq tq iq aq where
    "cpc_query d' = Inr cq" "pct_query d' = Inr tq" "inventor_query d' = Inr iq"
    "assignee_query d' = Inr aq" "q = and_q (and_q (and_q (and_q pq cq) tq) iq) aq"
    unfolding related_query_def bind_Inr_iff by auto
  with pq dd w show ?thesis by (intro that [of pq cq tq iq aq]) simp_all
qed


section \<open>Tri-state flags (claim C7)\<close>

lemma not_in_lookups:
  "fields q \<subseteq> set L \<Longrightarrow> fld \<notin> set L \<Longrightarrow> lookup_values fld q = []"
  by (auto simp: lookup_values_Nil_iff)

lemma lookup_values_where:
  "lookup_values fld (and_q (and_q (and_q (and_q pq cq) tq) iq) aq) =
     lookup_values fld pq @ lookup_values fld cq @ lookup_values fld tq @
     lookup_values fld iq @ lookup_values fld aq"
  by (simp add: lookup_values_and_q)

lemma holds_where:
  "holds E (and_q (and_q (and_q (and_q pq cq) tq) iq) aq) j \<longleftrightarrow>
     holds E pq j \<and> holds E cq j \<and> holds E tq j \<and> holds E iq j \<and> holds E aq j"
  by (simp add: holds_and_q del: holds.simps)

lemma Patent_filter_withdrawn:
  assumes "snd (Patent_filter d) = Inr qs" "d ''patent_withdrawn'' = Some v"
  shows "lookup_values ''withdrawn'' (qs_where qs) = (if v = PNone then [] else [v])"
    and "v \<noteq> PNone \<Longrightarrow> holds E (qs_where qs) j \<Longrightarrow> holds E (Cond ''withdrawn'' v) j"
proof -
  from assms(1) obtain pq cq tq iq aq where fr:
    "patent_query d = Inr pq" "cpc_query (fst (dedupe d)) = Inr cq"
    "pct_query (fst (dedupe d)) = Inr tq" "inventor_query (fst (dedupe d)) = Inr iq"
    "assignee_query (fst (dedupe d)) = Inr aq"
    and w: "qs_where qs = and_q (and_q (and_q (and_q pq cq) tq) iq) aq"
    by (rule Patent_filter_InrE)
  have "lookup_values ''withdrawn'' cq = []"
    by (rule not_in_lookups [OF cpc_query_fields [OF fr(2)]]) (simp add: cpc_lookups_def)
  moreover have "lookup_values ''withdrawn'' tq = []"
    by (rule not_in_lookups [OF pct_query_fields [OF fr(3)]]) (simp add: pct_lookups_def)
  moreover have "lookup_values ''withdrawn'' iq = []"
    by (rule not_in_lookups [OF inventor_query_fields [OF fr(4)]]) (simp add: inventor_lookups_def)
  moreover have "lookup_values ''withdrawn'' aq = []"
    by (rule not_in_lookups [OF assignee_query_fields [OF fr(5)]]) (simp add: assignee_lookups_def)
  ultimately show "lookup_values ''withdrawn'' (qs_where qs) = (if v = PNone then [] else [v])"
    by (simp only: w lookup_values_where patent_query_withdrawn(1) [OF fr(1) assms(2)] append_Nil2)
  show "holds E (Cond ''withdrawn'' v) j" if "v \<noteq> PNone" "holds E (qs_where qs) j"
  proof -
    from that(2) have "holds E pq j" by (simp only: w holds_where)
    with patent_query_withdrawn(2) [OF fr(1) assms(2) that(1)] show ?thesis .
  qed
qed

lemma Patent_filter_pct_granted:
  assumes "snd (Patent_filter d) = Inr qs" "d ''pct_granted'' = Some v"
  shows "lookup_values ''pct_data__granted'' (qs_where qs) = (if v = PNone then [] else [v])"
    and "v \<noteq> PNone \<Longrightarrow> holds E (qs_where qs) j \<Longrightarrow> holds E (Cond ''pct_data__granted'' v) j"
proof -
  from assms(1) obtain pq cq tq iq aq where fr:
    "patent_query d = Inr pq" "cpc_query (fst (dedupe d)) = Inr cq"
    "pct_query (fst (dedupe d)) = Inr tq" "inventor_query (fst (dedupe d)) = Inr iq"
    "assignee_query (fst (dedupe d)) = Inr aq"
    and w: "qs_where qs = and_q (and_q (and_q (and_q pq cq) tq) iq) aq"
    by (rule Patent_filter_InrE)
  have v: "fst (dedupe d) ''pct_granted'' = Some v"
    using assms(2) by (simp add: dedupe_other)
  have "lookup_values ''pct_data__granted'' pq = []"
    by (rule not_in_lookups [OF patent_query_fields [OF fr(1)]]) (simp add: patent_lookups_def)
  moreover have "lookup_values ''pct_data__granted'' cq = []"
    by (rule not_in_lookups [OF cpc_query_fields [OF fr(2)]]) (simp add: cpc_lookups_def)
  moreover have "lookup_values ''pct_data__granted'' iq = []"
    by (rule not_in_lookups [OF inventor_query_fields [OF fr(4)]]) (simp add: inventor_lookups_def)
  moreover have "lookup_values ''pct_data__granted'' aq = []"
    by (rule not_in_lookups [OF assignee_query_fields [OF fr(5)]]) (simp add: assignee_lookups_def)
  ultimately show
    "lookup_values ''pct_data__granted'' (qs_where qs) = (if v = PNone then [] else [v])"
    by (simp only: w lookup_values_where pct_query_granted(1) [OF fr(3) v] append_Nil2 append_Nil)
  show "holds E (Cond ''pct_data__granted'' v) j" if "v \<noteq> PNone" "holds E (qs_where qs) j"
  proof -
    from that(2) have "holds E tq j" by (simp only: w holds_where)
    with pct_query_granted(2) [OF fr(3) v that(1)] show ?thesis .
  qed
qed

lemma Patent_filter_inventor_male:
  assumes "snd (Patent_filter d) = Inr qs" "d ''inventor_male'' = Some v"
  shows "lookup_values ''inventors__male'' (qs_where qs) = (if v = PNone then [] else [v])"
    and "v \<noteq> PNone \<Longrightarrow> holds E (qs_where qs) j \<Longrightarrow> holds E (Cond ''inventors__male'' v) j"
proof -
  from assms(1) obtain pq cq tq iq aq where fr:
    "patent_query d = Inr pq" "cpc_query (fst (dedupe d)) = Inr cq"
    "pct_query (fst (dedupe d)) = Inr tq" "inventor_query (fst (dedupe d)) = Inr iq"
    "assignee_query (fst (dedupe d)) = Inr aq"
    and w: "qs_where qs = and_q (and_q (and_q (and_q pq cq) tq) iq) aq"
    by (rule Patent_filter_InrE)
  have v: "fst (dedupe d) ''inventor_male'' = Some v"
    using assms(2) by (simp add: dedupe_other)
  have "lookup_values ''inventors__male'' pq = []"
    by (rule not_in_lookups [OF patent_query_fields [OF fr(1)]]) (simp add: patent_lookups_def)
  moreover have "lookup_values ''inventors__male'' cq = []"
    by (rule not_in_lookups [OF cpc_query_fields [OF fr(2)]]) (simp add: cpc_lookups_def)
  moreover have "lookup_values ''inventors__male'' tq = []"
    by (rule not_in_lookups [OF pct_query_fields [OF fr(3)]]) (simp add: pct_lookups_def)
  moreover have "lookup_values ''inventors__male'' aq = []"
    by (rule not_in_lookups [OF assignee_query_fields [OF fr(5)]]) (simp add: assignee_lookups_def)
  ultimately show
    "lookup_values ''inventors__male'' (qs_where qs) = (if v = PNone then [] else [v])"
    by (simp only: w lookup_values_where inventor_query_male(1) [OF fr(4) v] append_Nil2 append_Nil)
  show "holds E (Cond ''inventors__male'' v) j" if "v \<noteq> PNone" "holds E (qs_where qs) j"
  proof -
    from that(2) have "holds E iq j" by (simp only: w holds_where)
    with inventor_query_male(2) [OF fr(4) v that(1)] show ?thesis .
  qed
qed

lemma tri_state_cases:
  assumes "(key, fld, col) \<in> set tri_state"
  obtains
    "key = ''patent_withdrawn''" "fld = ''withdrawn''"
      "col = (\<lambda>j. Some (withdrawn (j_patent j)))"
  | "key = ''pct_granted''" "fld = ''pct_data__granted''"
      "col = (\<lambda>j. map_option granted (j_pct j))"
  | "key = ''inventor_male''" "fld = ''inventors__male''"
      "col = (\<lambda>j. Option.bind (j_inventor j) male)"
  using assms by (auto simp: tri_state_def)

lemma Patent_filter_tri_state:
  assumes "(key, fld, col) \<in> set tri_state" "snd (Patent_filter d) = Inr qs" "d key = Some v"
  shows "lookup_values fld (qs_where qs) = (if v = PNone then [] else [v])"
    and "v = PBool b \<Longrightarrow> holds E (qs_where qs) j \<Longrightarrow> col j = Some b"
proof -
  show "lookup_values fld (qs_where qs) = (if v = PNone then [] else [v])"
    using assms(1)
  proof (cases rule: tri_state_cases)
    case 1
    with Patent_filter_withdrawn(1) [OF assms(2), of v] assms(3) show ?thesis by simp
  next
    case 2
    with Patent_filter_pct_granted(1) [OF assms(2), of v] assms(3) show ?thesis by simp
  next
    case 3
    with Patent_filter_inventor_male(1) [OF assms(2), of v] assms(3) show ?thesis by simp
  qed
  show "col j = Some b" if "v = PBool b" "holds E (qs_where qs) j"
    using assms(1)
  proof (cases rule: tri_state_cases)
    case 1
    with Patent_filter_withdrawn(2) [OF assms(2), of v E j] assms(3) that
    show ?thesis by (simp add: holds_withdrawn del: holds.simps)
  next
    case 2
    with Patent_filter_pct_granted(2) [OF assms(2), of v E j] assms(3) that
    show ?thesis by (simp add: holds_pct_granted del: holds.simps)
  next
    case 3
    with Patent_filter_inventor_male(2) [OF assms(2), of v E j] assms(3) that
    show ?thesis by (simp add: holds_inventors_male del: holds.simps)
  qed
qed

text \<open>
  Claim C7: for each of the three tri-state flags (patent withdrawn, PCT granted, inventor
  gender), a bundle in which the flag is \<open>None\<close> puts no condition on the flag's field, a
  bundle in which it is \<open>False\<close> puts exactly the condition that the field equals \<open>False\<close>,
  every row that satisfies the compiled predicate then has the column false, and the two
  predicates differ.
\<close>

theorem tri_state_unset_versus_false:
  assumes "(key, fld, col) \<in> set tri_state"
    and "snd (Patent_filter d0) = Inr qs0" and "d0 key = Some PNone"
    and "snd (Patent_filter d1) = Inr qs1" and "d1 key = Some (PBool False)"
  shows "lookup_values fld (qs_where qs0) = [] \<and>
         lookup_values fld (qs_where qs1) = [PBool False] \<and>
         (\<forall>E j. holds E (qs_where qs1) j \<longrightarrow> col j = Some False) \<and>
         qs_where qs0 \<noteq> qs_where qs1"
proof -
  have a: "lookup_values fld (qs_where qs0) = []"
    using Patent_filter_tri_state(1) [OF assms(1,2,3)] by simp
  have b: "lookup_values fld (qs_where qs1) = [PBool False]"
    using Patent_filter_tri_state(1) [OF assms(1,4,5)] by simp
  have c: "col j = Some False" if "holds E (qs_where qs1) j" for E j
    by (rule Patent_filter_tri_state(2) [OF assms(1,4,5) refl that])
  from a b have "qs_where qs0 \<noteq> qs_where qs1" by auto
  with a b c show ?thesis by blast
qed


theorem tri_state_unset_versus_false_witness:
  "(''patent_withdrawn'', ''withdrawn'', \<lambda>j. Some (withdrawn (j_patent j))) \<in> set tri_state \<and>
   snd (Patent_filter empty_form) =
     Inr \<lparr>qs_where = Q AND [], qs_annotations = [], qs_order_by = []\<rparr> \<and>
   empty_form ''patent_withdrawn'' = Some PNone \<and>
   snd (Patent_filter not_withdrawn_form) =
     Inr \<lparr>qs_where = Q AND [Cond ''withdrawn'' (PBool False)], qs_annotations = [],
          qs_order_by = []\<rparr> \<and>
   not_withdrawn_form ''patent_withdrawn'' = Some (PBool False) \<and>
   lookup_values ''withdrawn'' (Q AND []) = [] \<and>
   lookup_values ''withdrawn'' (Q AND [Cond ''withdrawn'' (PBool False)]) = [PBool False]"
proof -
  let ?qs0 = "\<lparr>qs_where = Q AND [], qs_annotations = [], qs_order_by = []\<rparr>"
  let ?qs1 = "\<lparr>qs_where = Q AND [Cond ''withdrawn'' (PBool False)], qs_annotations = [],
          qs_order_by = []\<rparr>"
  have t: "(''patent_withdrawn'', ''withdrawn'', \<lambda>j. Some (withdrawn (j_patent j))) \<in> set tri_state"
    by (simp add: tri_state_def)
  have f0: "snd (Patent_filter empty_form) = Inr ?qs0" by code_simp
  have u: "empty_form ''patent_withdrawn'' = Some PNone" by (simp add: empty_form_def)
  have f1: "snd (Patent_filter not_withdrawn_form) = Inr ?qs1" by code_simp
  have f: "not_withdrawn_form ''patent_withdrawn'' = Some (PBool False)"
    by (simp add: not_withdrawn_form_def)
  note r = tri_state_unset_versus_false [OF t f0 u f1 f]
  from r have "lookup_values ''withdrawn'' (qs_where ?qs0) = []" by (rule conjunct1)
  then have a: "lookup_values ''withdrawn'' (Q AND []) = []"
    by (simp only: queryset.select_convs)
  from r have "lookup_values ''withdrawn'' (qs_where ?qs1) = [PBool False]"
    by (rule conjunct2 [THEN conjunct1])
  then have b: "lookup_values ''withdrawn'' (Q AND [Cond ''withdrawn'' (PBool False)]) = [PBool False]"
    by (simp only: queryset.select_convs)
  from t f0 u f1 f a b show ?thesis by (intro conjI)
qed

section \<open>First names (claim C10)\<close>

lemma length_intercalate:
  "ss \<noteq> [] \<Longrightarrow> length (intercalate sep ss) = length (concat ss) + (length ss - 1) * length sep"
  by (induction sep ss rule: intercalate.induct) simp_all

lemma concat_neq_intercalate:
  assumes "2 \<le> length ns"
  shows "''^('' @ concat ns @ '')'' \<noteq> ''^('' @ intercalate ''|'' ns @ '')''"
proof
  assume "''^('' @ concat ns @ '')'' = ''^('' @ intercalate ''|'' ns @ '')''"
  then have "length (concat ns) = length (intercalate ''|'' ns)" by simp
  moreover from assms have "ns \<noteq> []" by auto
  ultimately show False using length_intercalate [of ns "''|''"] assms by simp
qed

lemma Patent_filter_inventor_first_name:
  assumes "snd (Patent_filter d) = Inr qs"
    "d ''inventor_first_name'' = Some (PList (map PStr ns))" "ns \<noteq> []"
  shows "lookup_values ''inventors__first_name__iregex'' (qs_where qs) =
           [PStr (''^('' @ concat ns @ '')'')]"
    and "holds E (qs_where qs) j \<Longrightarrow>
           holds E (Cond ''inventors__first_name__iregex'' (PStr (''^('' @ concat ns @ '')''))) j"
proof -
  let ?f = "''inventors__first_name__iregex''"
  from assms(1) obtain pq cq tq iq aq where fr:
    "patent_query d = Inr pq" "cpc_query (fst (dedupe d)) = Inr cq"
    "pct_query (fst (dedupe d)) = Inr tq" "inventor_query (fst (dedupe d)) = Inr iq"
    "assignee_query (fst (dedupe d)) = Inr aq"
    and w: "qs_where qs = and_q (and_q (and_q (and_q pq cq) tq) iq) aq"
    by (rule Patent_filter_InrE)
  have v: "fst (dedupe d) ''inventor_first_name'' = Some (PList (map PStr ns))"
    using assms(2) by (simp add: dedupe_other)
  have "lookup_values ?f pq = []"
    by (rule not_in_lookups [OF patent_query_fields [OF fr(1)]]) (simp add: patent_lookups_def)
  moreover have "lookup_values ?f cq = []"
    by (rule not_in_lookups [OF cpc_query_fields [OF fr(2)]]) (simp add: cpc_lookups_def)
  moreover have "lookup_values ?f tq = []"
    by (rule not_in_lookups [OF pct_query_fields [OF fr(3)]]) (simp add: pct_lookups_def)
  moreover have "lookup_values ?f aq = []"
    by (rule not_in_lookups [OF assignee_query_fields [OF fr(5)]]) (simp add: assignee_lookups_def)
  ultimately show "lookup_values ?f (qs_where qs) = [PStr (''^('' @ concat ns @ '')'')]"
    by (simp only: w lookup_values_where inventor_query_first_name(1) [OF fr(4) v assms(3)]
          append_Nil2 append_Nil)
  show "holds E (Cond ?f (PStr (''^('' @ concat ns @ '')''))) j" if "holds E (qs_where qs) j"
  proof -
    from that have "holds E iq j" by (simp only: w holds_where)
    then show ?thesis by (rule inventor_query_first_name(2) [OF fr(4) v assms(3)])
  qed
qed

lemma Patent_filter_assignee_first_name:
  assumes "snd (Patent_filter d) = Inr qs"
    "d ''assignee_first_name'' = Some (PList (map PStr ns))" "ns \<noteq> []"
  shows "lookup_values ''assignees__first_name__iregex'' (qs_where qs) =
           [PStr (''^('' @ concat ns @ '')'')]"
    and "holds E (qs_where qs) j \<Longrightarrow>
           holds E (Cond ''assignees__first_name__iregex'' (PStr (''^('' @ concat ns @ '')''))) j"
proof -
  let ?f = "''assignees__first_name__iregex''"
  from assms(1) obtain pq cq tq iq aq where fr:
    "patent_query d = Inr pq" "cpc_query (fst (dedupe d)) = Inr cq"
    "pct_query (fst (dedupe d)) = Inr tq" "inventor_query (fst (dedupe d)) = Inr iq"
    "assignee_query (fst (dedupe d)) = Inr aq"
    and w: "qs_where qs = and_q (and_q (and_q (and_q pq cq) tq) iq) aq"
    by (rule Patent_filter_InrE)
  have v: "fst (dedupe d) ''assignee_first_name'' = Some (PList (map PStr ns))"
    using assms(2) by (simp add: dedupe_other)
  have "lookup_values ?f pq = []"
    by (rule not_in_lookups [OF patent_query_fields [OF fr(1)]]) (simp add: patent_lookups_def)
  moreover have "lookup_values ?f cq = []"
    by (rule not_in_lookups [OF cpc_query_fields [OF fr(2)]]) (simp add: cpc_lookups_def)
  moreover have "lookup_values ?f tq = []"
    by (rule not_in_lookups [OF pct_query_fields [OF fr(3)]]) (simp add: pct_lookups_def)
  moreover have "lookup_values ?f iq = []"
    by (rule not_in_lookups [OF inventor_query_fields [OF fr(4)]]) (simp add: inventor_lookups_def)
  ultimately show "lookup_values ?f (qs_where qs) = [PStr (''^('' @ concat ns @ '')'')]"
    by (simp only: w lookup_values_where assignee_query_first_name(1) [OF fr(5) v assms(3)]
          append_Nil2 append_Nil)
  show "holds E (Cond ?f (PStr (''^('' @ concat ns @ '')''))) j" if "holds E (qs_where qs) j"
  proof -
    from that have "holds E aq j" by (simp only: w holds_where)
    then show ?thesis by (rule assignee_query_first_name(2) [OF fr(5) v assms(3)])
  qed
qed

lemma first_name_dims_cases:
  assumes "(key, fld, col) \<in> set first_name_dims"
  obtains
    "key = ''inventor_first_name''" "fld = ''inventors__first_name__iregex''"
      "col = (\<lambda>j. Option.bind (j_inventor j) inventor_first_name)"
  | "key = ''assignee_first_name''" "fld = ''assignees__first_name__iregex''"
      "col = (\<lambda>j. Option.bind (j_assignee j) assignee_first_name)"
  using assms by (auto simp: first_name_dims_def)

text \<open>
  Claim C10: when the inventor (or assignee) first-name entry is a non-empty list of strings,
  the predicate holds exactly one condition on the first name, the case-insensitive regex
  \<open>^(\<close> followed by all entries concatenated with no separator and \<open>)\<close>; every row that
  satisfies the predicate has a first name matching that regex; with two or more entries the
  regex is not the alternation of the entries. For a single entry the concatenation is the
  entry itself.
\<close>

theorem first_names_are_concatenated:
  assumes "(key, fld, col) \<in> set first_name_dims"
    and "d key = Some (PList (map PStr ns))" and "ns \<noteq> []"
    and "snd (Patent_filter d) = Inr qs"
  shows "lookup_values fld (qs_where qs) = [PStr (''^('' @ concat ns @ '')'')] \<and>
         (\<forall>E j. holds E (qs_where qs) j \<longrightarrow>
                (\<exists>t. col j = Some t \<and> iregex E (''^('' @ concat ns @ '')'') t)) \<and>
         (2 \<le> length ns \<longrightarrow>
            ''^('' @ concat ns @ '')'' \<noteq> ''^('' @ intercalate ''|'' ns @ '')'')"
  using assms(1)
proof (cases rule: first_name_dims_cases)
  case 1
  from assms(2) 1 have v: "d ''inventor_first_name'' = Some (PList (map PStr ns))" by simp
  note r = Patent_filter_inventor_first_name [OF assms(4) v assms(3)]
  have "\<exists>t. col j = Some t \<and> iregex E (''^('' @ concat ns @ '')'') t"
    if "holds E (qs_where qs) j" for E j
    using r(2) [OF that] 1 by (simp only: holds_inventors_first_name)
  with r(1) 1 concat_neq_intercalate show ?thesis by blast
next
  case 2
  from assms(2) 2 have v: "d ''assignee_first_name'' = Some (PList (map PStr ns))" by simp
  note r = Patent_filter_assignee_first_name [OF assms(4) v assms(3)]
  have "\<exists>t. col j = Some t \<and> iregex E (''^('' @ concat ns @ '')'') t"
    if "holds E (qs_where qs) j" for E j
    using r(2) [OF that] 2 by (simp only: holds_assignees_first_name)
  with r(1) 2 concat_neq_intercalate show ?thesis by blast
qed

theorem first_names_are_concatenated_witness:
  "(''inventor_first_name'', ''inventors__first_name__iregex'',
      \<lambda>j. Option.bind (j_inventor j) inventor_first_name) \<in> set first_name_dims \<and>
   jo_ma_form ''inventor_first_name'' = Some (PList (map PStr [''Jo'', ''Ma''])) \<and>
   [''Jo'', ''Ma''] \<noteq> [] \<and>
   snd (Patent_filter jo_ma_form) =
     Inr \<lparr>qs_where = Q AND [Cond ''inventors__first_name__iregex'' (PStr ''^(JoMa)'')],
          qs_annotations = [], qs_order_by = []\<rparr> \<and>
   lookup_values ''inventors__first_name__iregex''
     (Q AND [Cond ''inventors__first_name__iregex'' (PStr ''^(JoMa)'')]) = [PStr ''^(JoMa)''] \<and>
   ''^(JoMa)'' \<noteq> ''^(Jo|Ma)''"
proof -
  let ?w = "Q AND [Cond ''inventors__first_name__iregex'' (PStr ''^(JoMa)'')]"
  let ?qs = "\<lparr>qs_where = ?w, qs_annotations = [], qs_order_by = []\<rparr>"
  have t: "(''inventor_first_name'', ''inventors__first_name__iregex'',
      \<lambda>j. Option.bind (j_inventor j) inventor_first_name) \<in> set first_name_dims"
    by (simp add: first_name_dims_def)
  have v: "jo_ma_form ''inventor_first_name'' = Some (PList (map PStr [''Jo'', ''Ma'']))"
    by (simp add: jo_ma_form_def)
  have n: "[''Jo'', ''Ma''] \<noteq> []" by simp
  have f: "snd (Patent_filter jo_ma_form) = Inr ?qs" by code_simp
  note r = first_names_are_concatenated [OF t v n f]
  from r have "lookup_values ''inventors__first_name__iregex'' (qs_where ?qs) =
      [PStr (''^('' @ concat [''Jo'', ''Ma''] @ '')'')]"
    by (rule conjunct1)
  then have a: "lookup_values ''inventors__first_name__iregex'' ?w = [PStr ''^(JoMa)'']"
    by (simp only: queryset.select_convs concat.simps append.simps)
  have b: "''^(JoMa)'' \<noteq> ''^(Jo|Ma)''" by simp
  from t v n f a b show ?thesis by (intro conjI)
qed

section \<open>Keyword search for every bundle\<close>

text \<open>No bundle with a non-empty keyword list gets a result set.\<close>

lemma first_error_None:
  "first_error kvs = None \<Longrightarrow> kv \<in> set kvs \<Longrightarrow> \<exists>p. compile_leaf (fst kv) (snd kv) = Inr p"
  by (induction kvs) (auto split: sum.splits)

lemma compile_leaf_abstract: "compile_leaf ''abstract__iregex'' v = Inl FieldError"
  by (simp add: compile_leaf_def patent_names_def)

lemma keyword_filter_never_returns:
  assumes "d ''patent_keywords'' = Some v" "truthy v"
  shows "snd (Patent_filter d) \<noteq> Inr qs"
proof
  assume r: "snd (Patent_filter d) = Inr qs"
  then obtain pq cq tq iq aq where fr: "patent_query d = Inr pq"
    and w: "qs_where qs = and_q (and_q (and_q (and_q pq cq) tq) iq) aq"
    and c: "check (qs_where qs) = None"
    by (rule Patent_filter_InrE)
  from fr obtain kw q7 kws where k: "d ''patent_keywords'' = Some kws"
    and q: "pq = (if truthy kws
          then and_q q7 (or_q (Q_kw ''title__iregex'' (PStr (''('' @ kw @ '')'')))
                              (Q_kw ''abstract__iregex'' (PStr (''('' @ kw @ '')''))))
          else q7)"
    by (rule patent_query_steps)
  from k assms have "truthy kws" by simp
  with q have "(''abstract__iregex'', PStr (''('' @ kw @ '')'')) \<in> set (leaves pq)"
    by (simp add: leaves_and_q leaves_or_q leaves_Q_kw)
  then have "(''abstract__iregex'', PStr (''('' @ kw @ '')'')) \<in> set (leaves (qs_where qs))"
    by (simp add: w leaves_and_q)
  with c first_error_None
  have "\<exists>p. compile_leaf ''abstract__iregex'' (PStr (''('' @ kw @ '')'')) = Inr p"
    unfolding check_def by fastforce
  then show False by (simp add: compile_leaf_abstract)
qed

section \<open>The representation (claim C8)\<close>

lemma group_result_cases:
  assumes "(p, anns) \<in> set (group_result E A rows i)"
  obtains j g where "filter (\<lambda>j. patent_id (j_patent j) = i) rows = j # g"
    "p = j_patent j" "patent_id p = i"
    "anns = map (\<lambda>na. (fst na, eval_aggregate E (snd na) (j # g))) A"
proof (cases "filter (\<lambda>j. patent_id (j_patent j) = i) rows")
  case Nil
  with assms show ?thesis by (simp add: group_result_def)
next
  case (Cons j g)
  then have "j \<in> set (filter (\<lambda>j. patent_id (j_patent j) = i) rows)" by simp
  then have "patent_id (j_patent j) = i" by simp
  with assms Cons show ?thesis by (intro that [of j g]) (simp_all add: group_result_def)
qed

lemma execute_annotated:
  "qs_annotations qs \<noteq> [] \<Longrightarrow> qs_order_by qs = [''id''] \<Longrightarrow>
   execute E S qs =
     sort_key (\<lambda>r. patent_id (fst r))
       (concat (map (group_result E (qs_annotations qs) (matched E S qs))
                    (remdups (map (\<lambda>j. patent_id (j_patent j)) (matched E S qs)))))"
  by (simp add: execute_def Let_def)

lemma ids_of_groups:
  "set ks \<subseteq> (\<lambda>j. patent_id (j_patent j)) ` set rows \<Longrightarrow>
   map (\<lambda>r. patent_id (fst r)) (concat (map (group_result E A rows) ks)) = ks"
proof (induction ks)
  case Nil
  then show ?case by simp
next
  case (Cons k ks)
  then obtain j where "j \<in> set rows" "patent_id (j_patent j) = k" by auto
  then have "filter (\<lambda>j. patent_id (j_patent j) = k) rows \<noteq> []"
    by (auto simp: filter_empty_conv)
  then obtain j' g where f: "filter (\<lambda>j. patent_id (j_patent j) = k) rows = j' # g"
    by (cases "filter (\<lambda>j. patent_id (j_patent j) = k) rows") auto
  then have "j' \<in> set (filter (\<lambda>j. patent_id (j_patent j) = k) rows)" by simp
  then have "patent_id (j_patent j') = k" by simp
  with f have "map (\<lambda>r. patent_id (fst r)) (group_result E A rows k) = [k]"
    by (simp add: group_result_def)
  with Cons show ?case by simp
qed

lemma set_insert_collated: "set (insert_collated le x xs) = insert x (set xs)"
  by (induction xs) auto

lemma distinct_insert_collated:
  "distinct (insert_collated le x xs) \<longleftrightarrow> x \<notin> set xs \<and> distinct xs"
  by (induction xs) (auto simp: set_insert_collated)

lemma set_collated: "set (collated le xs) = set xs"
  by (induction xs) (simp_all add: collated_def set_insert_collated)

lemma distinct_collated: "distinct (collated le xs) \<longleftrightarrow> distinct xs"
  by (induction xs) (simp_all add: collated_def distinct_insert_collated set_collated [unfolded collated_def])

lemma string_agg_distinct:
  "\<exists>es. distinct es \<and> set es = {s. Some s \<in> set vals} \<and>
        string_agg le True delim vals = (if es = [] then None else Some (intercalate delim es))"
proof -
  let ?xs = "concat (map (\<lambda>v. case v of None \<Rightarrow> [] | Some s \<Rightarrow> [s]) vals)"
  let ?es = "collated le (remdups ?xs)"
  have "set ?xs = {s. Some s \<in> set vals}" by (auto split: option.splits)
  then have "distinct ?es \<and> set ?es = {s. Some s \<in> set vals} \<and>
      string_agg le True delim vals = (if ?es = [] then None else Some (intercalate delim ?es))"
    by (simp add: string_agg_def Let_def set_collated distinct_collated)
  then show ?thesis by blast
qed

lemma evaluate_Inr:
  "evaluate E S qs = Inr rs \<Longrightarrow> rs = execute E S qs"
  by (simp add: evaluate_def split: if_splits)

lemma representation_names:
  "map fst representation_annotations =
     [''cpc_groups_groups'', ''pct_documents'', ''inventor_names'', ''inventor_points'',
      ''assignee_names'', ''assignee_points'']"
  by (simp add: representation_annotations_def)

lemma representation_delimiters:
  "(n, StringAgg e delim dflag) \<in> set representation_annotations \<Longrightarrow>
   dflag \<and> delim = (if n \<in> {''inventor_points'', ''assignee_points''} then '','' else '', '')"
  by (auto simp: representation_annotations_def)

lemma map_of_aggregates:
  assumes "distinct (map fst A)" "(n, a) \<in> set A"
  shows "map_of (map (\<lambda>na. (fst na, f (snd na))) A) n = Some (f a)"
proof -
  have "map_of (map (\<lambda>na. (fst na, f (snd na))) A) n = map_option f (map_of A n)"
    by (induction A) auto
  with assms show ?thesis by simp
qed

lemma map_insort_key: "map f (insort_key f x xs) = insort (f x) (map f xs)"
  by (induction xs) simp_all

lemma map_sort_key: "map f (sort_key f xs) = sort (map f xs)"
  by (induction xs) (simp_all add: map_insort_key)

text \<open>
  Claim C8, amended: when the result set has no annotations of its own and Django compiles
  the annotated query, \<open>fetch_representation\<close> yields its rows in strictly ascending order
  of the patent key, so one row per patent, each carrying the six aggregates
  \<open>cpc_groups_groups\<close>, \<open>pct_documents\<close>, \<open>inventor_names\<close>, \<open>inventor_points\<close>,
  \<open>assignee_names\<close> and \<open>assignee_points\<close>. The delimiter is \<open>","\<close> for the two point
  aggregates and \<open>", "\<close> for the others. Each aggregate is built from a duplicate-free
  list of exactly the non-null values that its expression takes on the joined rows of the
  patent: when there is such a value the aggregate is the string joining the list with the
  delimiter, and when there is none it is what the installed Django makes of \<open>NULL\<close>, the
  empty string up to Django 4.2 and \<open>None\<close> from Django 5.0.
\<close>

theorem representation_aggregates_distinct_and_ordered:
  assumes "qs_annotations qs = []"
    and "evaluate E S (Patent_fetch_representation qs) = Inr rs"
  shows "sorted_wrt (<) (map (\<lambda>r. patent_id (fst r)) rs) \<and>
    (\<forall>(p, anns) \<in> set rs.
       map fst anns =
         [''cpc_groups_groups'', ''pct_documents'', ''inventor_names'', ''inventor_points'',
          ''assignee_names'', ''assignee_points''] \<and>
       (\<forall>n e delim dflag. (n, StringAgg e delim dflag) \<in> set representation_annotations \<longrightarrow>
          delim = (if n \<in> {''inventor_points'', ''assignee_points''} then '','' else '', '') \<and>
          (\<exists>es. distinct es \<and>
                set es = {s. \<exists>j \<in> set (matched E S (Patent_fetch_representation qs)).
                            patent_id (j_patent j) = patent_id p \<and> eval_expr E e j = Some s} \<and>
                map_of anns n =
                  Some (if es = [] then null_aggregate E else Some (intercalate delim es)))))"
proof (intro conjI ballI)
  let ?qs = "Patent_fetch_representation qs"
  let ?rows = "matched E S ?qs"
  let ?ks = "remdups (map (\<lambda>j. patent_id (j_patent j)) ?rows)"
  let ?res = "concat (map (group_result E representation_annotations ?rows) ?ks)"
  have rs: "rs = execute E S ?qs" using assms(2) by (rule evaluate_Inr)
  have a: "qs_annotations ?qs = representation_annotations"
    using assms(1) by (simp add: Patent_fetch_representation_def)
  have ne: "representation_annotations \<noteq> []" by (simp add: representation_annotations_def)
  have o: "qs_order_by ?qs = [''id'']" by (simp add: Patent_fetch_representation_def)
  have ex: "execute E S ?qs = sort_key (\<lambda>r. patent_id (fst r)) ?res"
    using execute_annotated [of ?qs E S] a ne o by simp
  have ids: "map (\<lambda>r. patent_id (fst r)) ?res = ?ks"
    by (rule ids_of_groups) auto
  have "map (\<lambda>r. patent_id (fst r)) (execute E S ?qs) =
      sort (map (\<lambda>r. patent_id (fst r)) ?res)"
    by (simp only: ex map_sort_key)
  also have "\<dots> = sort ?ks" by (simp only: ids)
  finally have "map (\<lambda>r. patent_id (fst r)) (execute E S ?qs) = sort ?ks" .
  then show "sorted_wrt (<) (map (\<lambda>r. patent_id (fst r)) rs)"
    by (simp add: rs strict_sorted_iff)
  fix r assume "r \<in> set rs"
  then have r: "r \<in> set ?res" by (simp add: rs ex)
  obtain p anns where pa: "r = (p, anns)" by (cases r)
  from r pa obtain k where "(p, anns) \<in> set (group_result E representation_annotations ?rows k)"
    by auto
  then obtain j g where g: "filter (\<lambda>j. patent_id (j_patent j) = k) ?rows = j # g"
    and k: "patent_id p = k"
    and an: "anns = map (\<lambda>na. (fst na, eval_aggregate E (snd na) (j # g))) representation_annotations"
    by (rule group_result_cases)
  have names: "map fst anns =
         [''cpc_groups_groups'', ''pct_documents'', ''inventor_names'', ''inventor_points'',
          ''assignee_names'', ''assignee_points'']"
    by (simp add: an comp_def representation_names)
  have each: "delim = (if n \<in> {''inventor_points'', ''assignee_points''} then '','' else '', '') \<and>
          (\<exists>es. distinct es \<and>
                set es = {s. \<exists>j \<in> set ?rows.
                            patent_id (j_patent j) = patent_id p \<and> eval_expr E e j = Some s} \<and>
                map_of anns n =
                  Some (if es = [] then null_aggregate E else Some (intercalate delim es)))"
    if m: "(n, StringAgg e delim dflag) \<in> set representation_annotations" for n e delim dflag
  proof -
    from representation_delimiters [OF m] have d: "dflag"
      and dl: "delim = (if n \<in> {''inventor_points'', ''assignee_points''} then '','' else '', '')"
      by simp_all
    have di: "distinct (map fst representation_annotations)"
      by (simp add: representation_names)
    have mo: "map_of anns n = Some (eval_aggregate E (StringAgg e delim dflag) (j # g))"
      unfolding an by (rule map_of_aggregates [OF di m])
    define G where "G = j # g"
    obtain es where es: "distinct es" "set es = {s. Some s \<in> set (map (eval_expr E e) G)}"
      "string_agg (collate_le E) True delim (map (eval_expr E e) G) =
         (if es = [] then None else Some (intercalate delim es))"
      using string_agg_distinct by blast
    have sg: "set G = {j \<in> set ?rows. patent_id (j_patent j) = patent_id p}"
      using g k unfolding G_def by (metis set_filter)
    have "{s. Some s \<in> set (map (eval_expr E e) G)} = {s. \<exists>j \<in> set G. eval_expr E e j = Some s}"
      by force
    also have "\<dots> = {s. \<exists>j \<in> set ?rows. patent_id (j_patent j) = patent_id p \<and> eval_expr E e j = Some s}"
      unfolding sg by blast
    finally have se: "set es =
        {s. \<exists>j \<in> set ?rows. patent_id (j_patent j) = patent_id p \<and> eval_expr E e j = Some s}"
      using es(2) by simp
    from mo d es(3)
    have mo': "map_of anns n =
        Some (if es = [] then null_aggregate E else Some (intercalate delim es))"
      unfolding G_def by simp
    from es(1) se mo' dl show ?thesis by blast
  qed
  from names each show "case r of (p, anns) \<Rightarrow>
       map fst anns =
         [''cpc_groups_groups'', ''pct_documents'', ''inventor_names'', ''inventor_points'',
          ''assignee_names'', ''assignee_points''] \<and>
       (\<forall>n e delim dflag. (n, StringAgg e delim dflag) \<in> set representation_annotations \<longrightarrow>
          delim = (if n \<in> {''inventor_points'', ''assignee_points''} then '','' else '', '') \<and>
          (\<exists>es. distinct es \<and>
                set es = {s. \<exists>j \<in> set (matched E S (Patent_fetch_representation qs)).
                            patent_id (j_patent j) = patent_id p \<and> eval_expr E e j = Some s} \<and>
                map_of anns n =
                  Some (if es = [] then null_aggregate E else Some (intercalate delim es))))"
    unfolding pa prod.case by blast
qed

text \<open>
  Patent 7 of the example has two classification groups and two inventors, so its join
  has four rows and carries each group twice; the aggregate holds each once. Storing the
  links in the other order gives the same rows.
\<close>

theorem representation_aggregates_distinct_and_ordered_witness:
  "qs_annotations \<lparr>qs_where = Q AND [], qs_annotations = [], qs_order_by = []\<rparr> = [] \<and>
   evaluate example_engine example_store (Patent_fetch_representation \<lparr>qs_where = Q AND [], qs_annotations = [], qs_order_by = []\<rparr>) =
     Inr [(example_patent 3 ''Kettle'' (Some 5),
           [(''cpc_groups_groups'', Some []), (''pct_documents'', Some []),
            (''inventor_names'', Some '' ''), (''inventor_points'', Some ''|''),
            (''assignee_names'', Some ''  ''), (''assignee_points'', Some ''|'')]),
          (example_patent 7 ''Golf gloves'' None,
           [(''cpc_groups_groups'', Some ''A63B71/146, B01D1/00''), (''pct_documents'', Some []),
            (''inventor_names'', Some ''Ann Smith, Bob Smith''),
            (''inventor_points'', Some ''|''),
            (''assignee_names'', Some ''  ''), (''assignee_points'', Some ''|'')])] \<and>
   sorted_wrt (<)
     (map (\<lambda>r. patent_id (fst r))
        [(example_patent 3 ''Kettle'' (Some 5),
           [(''cpc_groups_groups'', Some []), (''pct_documents'', Some []),
            (''inventor_names'', Some '' ''), (''inventor_points'', Some ''|''),
            (''assignee_names'', Some ''  ''), (''assignee_points'', Some ''|'')]),
          (example_patent 7 ''Golf gloves'' None,
           [(''cpc_groups_groups'', Some ''A63B71/146, B01D1/00''), (''pct_documents'', Some []),
            (''inventor_names'', Some ''Ann Smith, Bob Smith''),
            (''inventor_points'', Some ''|''),
            (''assignee_names'', Some ''  ''), (''assignee_points'', Some ''|'')])]) \<and>
   map (\<lambda>j. map_option link_cpc_group (j_link j))
     (matched example_engine example_store (Patent_fetch_representation \<lparr>qs_where = Q AND [], qs_annotations = [], qs_order_by = []\<rparr>)) =
     [Some ''A63B71/146'', Some ''A63B71/146'', Some ''B01D1/00'', Some ''B01D1/00'', None] \<and>
   evaluate example_engine
     (example_store\<lparr>patent_cpc_groups := rev (patent_cpc_groups example_store)\<rparr>)
     (Patent_fetch_representation \<lparr>qs_where = Q AND [], qs_annotations = [], qs_order_by = []\<rparr>) =
     Inr [(example_patent 3 ''Kettle'' (Some 5),
           [(''cpc_groups_groups'', Some []), (''pct_documents'', Some []),
            (''inventor_names'', Some '' ''), (''inventor_points'', Some ''|''),
            (''assignee_names'', Some ''  ''), (''assignee_points'', Some ''|'')]),
          (example_patent 7 ''Golf gloves'' None,
           [(''cpc_groups_groups'', Some ''A63B71/146, B01D1/00''), (''pct_documents'', Some []),
            (''inventor_names'', Some ''Ann Smith, Bob Smith''),
            (''inventor_points'', Some ''|''),
            (''assignee_names'', Some ''  ''), (''assignee_points'', Some ''|'')])]"
proof -
  let ?all = "\<lparr>qs_where = Q AND [], qs_annotations = [], qs_order_by = []\<rparr>"
  let ?rs = "[(example_patent 3 ''Kettle'' (Some 5),
           [(''cpc_groups_groups'', Some []), (''pct_documents'', Some []),
            (''inventor_names'', Some '' ''), (''inventor_points'', Some ''|''),
            (''assignee_names'', Some ''  ''), (''assignee_points'', Some ''|'')]),
          (example_patent 7 ''Golf gloves'' None,
           [(''cpc_groups_groups'', Some ''A63B71/146, B01D1/00''), (''pct_documents'', Some []),
            (''inventor_names'', Some ''Ann Smith, Bob Smith''),
            (''inventor_points'', Some ''|''),
            (''assignee_names'', Some ''  ''), (''assignee_points'', Some ''|'')])]"
  have h: "qs_annotations ?all = []" by simp
  have e: "evaluate example_engine example_store (Patent_fetch_representation ?all) = Inr ?rs"
    by code_simp
  note r = representation_aggregates_distinct_and_ordered [OF h e]
  from r have s: "sorted_wrt (<) (map (\<lambda>r. patent_id (fst r)) ?rs)"
    by (rule conjunct1)
  have m: "map (\<lambda>j. map_option link_cpc_group (j_link j))
     (matched example_engine example_store (Patent_fetch_representation ?all)) =
     [Some ''A63B71/146'', Some ''A63B71/146'', Some ''B01D1/00'', Some ''B01D1/00'', None]"
    by code_simp
  have v: "evaluate example_engine
     (example_store\<lparr>patent_cpc_groups := rev (patent_cpc_groups example_store)\<rparr>)
     (Patent_fetch_representation ?all) = Inr ?rs"
    by code_simp
  from h e s m v show ?thesis by (intro conjI)
qed

text \<open>
  Claim C8 as stated promises six strings. Neither patent of the example has a PCT row,
  patent 3 has no classification group, and under Django 5.0 those aggregates are \<open>None\<close>.
\<close>

theorem empty_aggregate_is_None:
  "evaluate example_engine_django_5_0 example_store (Patent_fetch_representation \<lparr>qs_where = Q AND [], qs_annotations = [], qs_order_by = []\<rparr>) =
     Inr [(example_patent 3 ''Kettle'' (Some 5),
           [(''cpc_groups_groups'', None), (''pct_documents'', None),
            (''inventor_names'', Some '' ''), (''inventor_points'', Some ''|''),
            (''assignee_names'', Some ''  ''), (''assignee_points'', Some ''|'')]),
          (example_patent 7 ''Golf gloves'' None,
           [(''cpc_groups_groups'', Some ''A63B71/146, B01D1/00''), (''pct_documents'', None),
            (''inventor_names'', Some ''Ann Smith, Bob Smith''),
            (''inventor_points'', Some ''|''),
            (''assignee_names'', Some ''  ''), (''assignee_points'', Some ''|'')])]"
  by code_simp

text \<open>
  Where Django does not compile one of the six annotations, evaluating the result of
  \<open>fetch_representation\<close> raises \<open>FieldError\<close>, whatever the tables hold.
\<close>

lemma representation_refused:
  assumes "(n, a) \<in> set representation_annotations" "\<not> compiles E a"
  shows "evaluate E S (Patent_fetch_representation qs) = Inl FieldError"
proof -
  from assms(1) have "(n, a) \<in> set (qs_annotations (Patent_fetch_representation qs))"
    by (simp add: Patent_fetch_representation_def)
  with assms(2) have "\<not> list_all (\<lambda>na. compiles E (snd na))
      (qs_annotations (Patent_fetch_representation qs))"
    unfolding list_all_iff by force
  then show ?thesis by (simp add: evaluate_def)
qed

end
